theory Spec2Isabelle
  imports Complex_Main
begin

section \<open>The BitMEX feed handler: data model\<close>

text \<open>
  The embedding follows \<^verbatim>\<open>cryptofeed/exchange/bitmex.py\<close>, class \<^verbatim>\<open>Bitmex\<close>.

  Prices and sizes are Python \<^verbatim>\<open>Decimal\<close> values (the decoder parses with
  \<^verbatim>\<open>parse_float=Decimal\<close>, and the handlers wrap every price and size in
  \<^verbatim>\<open>Decimal(...)\<close>). A finite decimal is a rational number and \<^verbatim>\<open>Decimal\<close>
  compares and hashes by numeric value, so they are modelled as \<^typ>\<open>rat\<close> and
  \<^verbatim>\<open>Decimal(x)\<close> as the identity. The \<^verbatim>\<open>timestamp: float\<close> argument is only passed
  through; it is a \<^typ>\<open>rat\<close> too.

  An entry of \<^verbatim>\<open>msg['data']\<close> is a JSON object. Each key the handlers read is a field
  that may be absent (\<^const>\<open>None\<close>): subscripting an absent key raises \<^verbatim>\<open>KeyError\<close>.
  A field that is present holds a value of the type the venue documents for it.
  \<^verbatim>\<open>openInterest\<close> is the one field whose presence the code tests with \<^verbatim>\<open>in\<close>; the
  venue sends it as a number or as \<^verbatim>\<open>null\<close>, so it has three cases: absent
  (\<^const>\<open>None\<close>), \<^verbatim>\<open>null\<close> (\<open>Some None\<close>) and a number.
  A message is a decoded table message: its keys \<^verbatim>\<open>action\<close> and \<^verbatim>\<open>data\<close> are present,
  and \<^verbatim>\<open>data\<close> is a list, possibly empty.
\<close>

datatype side = BID | ASK

datatype key = KStr string | KId int | KPrice rat

datatype error = IndexError | KeyError key

record entry =
  d_symbol :: "string option"
  d_side :: "string option"
  d_price :: "rat option"
  d_size :: "rat option"
  d_id :: "int option"
  d_timestamp :: "string option"
  d_trdMatchID :: "string option"
  d_bidPrice :: "rat option"
  d_askPrice :: "rat option"
  d_fundingInterval :: "string option"
  d_fundingRate :: "rat option"
  d_fundingRateDaily :: "rat option"
  d_openInterest :: "int option option"

record msg =
  action :: string
  data :: "entry list"

type_synonym book = "side \<Rightarrow> (rat \<rightharpoonup> rat)"
type_synonym index = "side \<Rightarrow> (int \<rightharpoonup> rat)"
type_synonym delta = "side \<Rightarrow> (rat \<times> rat) list"

text \<open>
  The attributes of the \<^verbatim>\<open>Bitmex\<close> object that the book handler reads and writes.
  \<^verbatim>\<open>partial_received\<close> is a \<^verbatim>\<open>defaultdict(bool)\<close>: reading a key never stored yields
  \<^verbatim>\<open>False\<close>, and the code only ever subscripts it, so it is a total function into
  \<^typ>\<open>bool\<close>. \<^verbatim>\<open>order_id[pair]\<close> is a \<^verbatim>\<open>defaultdict(dict)\<close> keyed by side, and
  \<^verbatim>\<open>l2_book[pair]\<close> is \<^verbatim>\<open>{BID: sd(), ASK: sd()}\<close>: both are total functions on
  \<^typ>\<open>side\<close>. The outer dictionaries \<^verbatim>\<open>order_id\<close> and \<^verbatim>\<open>l2_book\<close> are plain
  dictionaries keyed by symbol: a missing symbol raises \<^verbatim>\<open>KeyError\<close>.
\<close>

record feed =
  pairs :: "string list"
  partial_received :: "string \<Rightarrow> bool"
  order_id :: "string \<rightharpoonup> index"
  l2_book :: "string \<rightharpoonup> book"

datatype book_type = L2_BOOK

text \<open>
  The arguments of the call
  \<^verbatim>\<open>book_callback(self.l2_book[pair], L2_BOOK, pair, forced, delta, timestamp, timestamp)\<close>,
  in the order of the parameters
  \<^verbatim>\<open>(book, book_type, pair, forced, delta, timestamp, receipt_timestamp)\<close>.
\<close>

record book_update =
  bu_book :: book
  bu_book_type :: book_type
  bu_pair :: string
  bu_forced :: bool
  bu_delta :: delta
  bu_timestamp :: rat
  bu_receipt_timestamp :: rat

text \<open>
  How one call of the handler ends: an exception propagates to the caller, or the
  handler returns, with or without having invoked the callback.
\<close>

datatype outcome = Raised error | Returned "book_update option"

section \<open>Reset\<close>

definition reset_pair :: "feed \<Rightarrow> string \<Rightarrow> feed" where
  "reset_pair st pair =
     st\<lparr>l2_book := (l2_book st)(pair \<mapsto> (\<lambda>_. Map.empty)),
        order_id := (order_id st)(pair \<mapsto> (\<lambda>_. Map.empty))\<rparr>"

definition Bitmex_reset :: "feed \<Rightarrow> feed" where
  "Bitmex_reset st =
     foldl reset_pair (st\<lparr>partial_received := (\<lambda>_. False), order_id := Map.empty\<rparr>) (pairs st)"

section \<open>The book handler\<close>

definition side_of :: "string \<Rightarrow> side" where
  "side_of s = (if s = ''Buy'' then BID else ASK)"

text \<open>
  The bodies of the four \<^verbatim>\<open>for data in msg['data']\<close> loops. Each takes the object
  state and the local \<^verbatim>\<open>delta\<close> and returns the state as mutated so far together with
  either the exception raised or the new \<^verbatim>\<open>delta\<close>. The mutations made before an
  exception stay: nothing is rolled back.
\<close>

definition partial_entry :: "string \<Rightarrow> entry \<Rightarrow> feed \<Rightarrow> delta \<Rightarrow> feed \<times> (error + delta)" where
  "partial_entry pair d st dl =
     (case d_side d of None \<Rightarrow> (st, Inl (KeyError (KStr ''side''))) | Some sd \<Rightarrow>
      case d_price d of None \<Rightarrow> (st, Inl (KeyError (KStr ''price''))) | Some price \<Rightarrow>
      case d_size d of None \<Rightarrow> (st, Inl (KeyError (KStr ''size''))) | Some sz \<Rightarrow>
      case d_id d of None \<Rightarrow> (st, Inl (KeyError (KStr ''id''))) | Some oid \<Rightarrow>
      case l2_book st pair of None \<Rightarrow> (st, Inl (KeyError (KStr pair))) | Some bk \<Rightarrow>
      let st1 = st\<lparr>l2_book := (l2_book st)(pair \<mapsto> bk(side_of sd := (bk (side_of sd))(price \<mapsto> sz)))\<rparr>
      in case order_id st1 pair of None \<Rightarrow> (st1, Inl (KeyError (KStr pair))) | Some idx \<Rightarrow>
        (st1\<lparr>order_id := (order_id st1)(pair \<mapsto> idx(side_of sd := (idx (side_of sd))(oid \<mapsto> price)))\<rparr>,
         Inr dl))"

definition insert_entry :: "string \<Rightarrow> entry \<Rightarrow> feed \<Rightarrow> delta \<Rightarrow> feed \<times> (error + delta)" where
  "insert_entry pair d st dl =
     (case d_side d of None \<Rightarrow> (st, Inl (KeyError (KStr ''side''))) | Some sd \<Rightarrow>
      case d_price d of None \<Rightarrow> (st, Inl (KeyError (KStr ''price''))) | Some price \<Rightarrow>
      case d_size d of None \<Rightarrow> (st, Inl (KeyError (KStr ''size''))) | Some sz \<Rightarrow>
      case d_id d of None \<Rightarrow> (st, Inl (KeyError (KStr ''id''))) | Some oid \<Rightarrow>
      case l2_book st pair of None \<Rightarrow> (st, Inl (KeyError (KStr pair))) | Some bk \<Rightarrow>
      let st1 = st\<lparr>l2_book := (l2_book st)(pair \<mapsto> bk(side_of sd := (bk (side_of sd))(price \<mapsto> sz)))\<rparr>
      in case order_id st1 pair of None \<Rightarrow> (st1, Inl (KeyError (KStr pair))) | Some idx \<Rightarrow>
        (st1\<lparr>order_id := (order_id st1)(pair \<mapsto> idx(side_of sd := (idx (side_of sd))(oid \<mapsto> price)))\<rparr>,
         Inr (dl(side_of sd := dl (side_of sd) @ [(price, sz)]))))"

definition update_entry :: "string \<Rightarrow> entry \<Rightarrow> feed \<Rightarrow> delta \<Rightarrow> feed \<times> (error + delta)" where
  "update_entry pair d st dl =
     (case d_side d of None \<Rightarrow> (st, Inl (KeyError (KStr ''side''))) | Some sd \<Rightarrow>
      case d_size d of None \<Rightarrow> (st, Inl (KeyError (KStr ''size''))) | Some update_size \<Rightarrow>
      case d_id d of None \<Rightarrow> (st, Inl (KeyError (KStr ''id''))) | Some oid \<Rightarrow>
      case order_id st pair of None \<Rightarrow> (st, Inl (KeyError (KStr pair))) | Some idx \<Rightarrow>
      case idx (side_of sd) oid of None \<Rightarrow> (st, Inl (KeyError (KId oid))) | Some price \<Rightarrow>
      case l2_book st pair of None \<Rightarrow> (st, Inl (KeyError (KStr pair))) | Some bk \<Rightarrow>
      let st1 = st\<lparr>l2_book := (l2_book st)(pair \<mapsto> bk(side_of sd := (bk (side_of sd))(price \<mapsto> update_size)))\<rparr>
      in case order_id st1 pair of None \<Rightarrow> (st1, Inl (KeyError (KStr pair))) | Some idx1 \<Rightarrow>
        (st1\<lparr>order_id := (order_id st1)(pair \<mapsto> idx1(side_of sd := (idx1 (side_of sd))(oid \<mapsto> price)))\<rparr>,
         Inr (dl(side_of sd := dl (side_of sd) @ [(price, update_size)]))))"

definition delete_entry :: "string \<Rightarrow> entry \<Rightarrow> feed \<Rightarrow> delta \<Rightarrow> feed \<times> (error + delta)" where
  "delete_entry pair d st dl =
     (case d_side d of None \<Rightarrow> (st, Inl (KeyError (KStr ''side''))) | Some sd \<Rightarrow>
      case d_id d of None \<Rightarrow> (st, Inl (KeyError (KStr ''id''))) | Some oid \<Rightarrow>
      case order_id st pair of None \<Rightarrow> (st, Inl (KeyError (KStr pair))) | Some idx \<Rightarrow>
      case idx (side_of sd) oid of None \<Rightarrow> (st, Inl (KeyError (KId oid))) | Some delete_price \<Rightarrow>
      let st1 = st\<lparr>order_id := (order_id st)(pair \<mapsto> idx(side_of sd := (idx (side_of sd))(oid := None)))\<rparr>
      in case l2_book st1 pair of None \<Rightarrow> (st1, Inl (KeyError (KStr pair))) | Some bk \<Rightarrow>
      case bk (side_of sd) delete_price of None \<Rightarrow> (st1, Inl (KeyError (KPrice delete_price))) | Some _ \<Rightarrow>
        (st1\<lparr>l2_book := (l2_book st1)(pair \<mapsto> bk(side_of sd := (bk (side_of sd))(delete_price := None)))\<rparr>,
         Inr (dl(side_of sd := dl (side_of sd) @ [(delete_price, 0)]))))"

text \<open>A \<^verbatim>\<open>for\<close> loop over the entries: it stops at the first exception.\<close>

fun for_each ::
  "(entry \<Rightarrow> feed \<Rightarrow> delta \<Rightarrow> feed \<times> (error + delta)) \<Rightarrow> entry list \<Rightarrow> feed \<Rightarrow> delta
     \<Rightarrow> feed \<times> (error + delta)" where
  "for_each body [] st dl = (st, Inr dl)"
| "for_each body (d # ds) st dl =
     (case body d st dl of
        (st', Inl err) \<Rightarrow> (st', Inl err)
      | (st', Inr dl') \<Rightarrow> for_each body ds st' dl')"

text \<open>The call of \<^verbatim>\<open>book_callback\<close> that ends the handler (line 151).\<close>

definition deliver :: "string \<Rightarrow> bool \<Rightarrow> rat \<Rightarrow> feed \<times> (error + delta) \<Rightarrow> feed \<times> outcome" where
  "deliver pair forced timestamp r =
     (case r of
        (st, Inl err) \<Rightarrow> (st, Raised err)
      | (st, Inr dl) \<Rightarrow>
          (case l2_book st pair of
             None \<Rightarrow> (st, Raised (KeyError (KStr pair)))
           | Some bk \<Rightarrow>
               (st, Returned (Some \<lparr>bu_book = bk, bu_book_type = L2_BOOK, bu_pair = pair,
                                    bu_forced = forced, bu_delta = dl,
                                    bu_timestamp = timestamp,
                                    bu_receipt_timestamp = timestamp\<rparr>))))"

text \<open>Lines 107 to 151: the dispatch on \<^verbatim>\<open>msg['action']\<close>, once the gate is passed.\<close>

definition book_apply :: "feed \<Rightarrow> msg \<Rightarrow> string \<Rightarrow> bool \<Rightarrow> rat \<Rightarrow> feed \<times> outcome" where
  "book_apply st m pair forced timestamp =
     (if action m = ''partial'' then
        deliver pair forced timestamp (for_each (partial_entry pair) (data m) st (\<lambda>_. []))
      else if action m = ''insert'' then
        deliver pair forced timestamp (for_each (insert_entry pair) (data m) st (\<lambda>_. []))
      else if action m = ''update'' then
        deliver pair forced timestamp (for_each (update_entry pair) (data m) st (\<lambda>_. []))
      else if action m = ''delete'' then
        deliver pair forced timestamp (for_each (delete_entry pair) (data m) st (\<lambda>_. []))
      else (st, Returned None))"

text \<open>Lines 95 to 105: the symbol of the first entry and the gate.\<close>

definition Bitmex_book :: "feed \<Rightarrow> msg \<Rightarrow> rat \<Rightarrow> feed \<times> outcome" where
  "Bitmex_book st m timestamp =
     (case data m of
        [] \<Rightarrow> (st, Raised IndexError)
      | d0 # _ \<Rightarrow>
          (case d_symbol d0 of
             None \<Rightarrow> (st, Raised (KeyError (KStr ''symbol'')))
           | Some pair \<Rightarrow>
               if \<not> partial_received st pair then
                 (if action m \<noteq> ''partial'' then (st, Returned None)
                  else book_apply (st\<lparr>partial_received := (partial_received st)(pair := True)\<rparr>)
                         m pair True timestamp)
               else book_apply st m pair False timestamp))"

text \<open>A connection's book messages, handled one after the other on the same object.
  The state an exception leaves behind is the state the next message finds.\<close>

fun run :: "feed \<Rightarrow> (msg \<times> rat) list \<Rightarrow> feed" where
  "run st [] = st"
| "run st ((m, timestamp) # ms) = run (fst (Bitmex_book st m timestamp)) ms"

section \<open>The auxiliary normalizers\<close>

text \<open>
  \<^verbatim>\<open>_trade\<close>, \<^verbatim>\<open>_ticker\<close>, \<^verbatim>\<open>_funding\<close> and \<^verbatim>\<open>_instrument\<close> call
  \<^verbatim>\<open>self.callback\<close> once per entry. The events below are the keyword arguments of
  these calls. \<^verbatim>\<open>self.id\<close> and \<^verbatim>\<open>timestamp_normalize\<close> come from modules outside this
  file; they are the parameters \<open>self_id\<close> and \<open>timestamp_normalize\<close>.
\<close>

datatype trade_side = BUY | SELL

datatype event =
    TRADES (ev_feed: string) (ev_pair: string) (ev_side: trade_side) (ev_amount: rat)
      (ev_price: rat) (ev_order_id: string) (ev_timestamp: rat) (ev_receipt_timestamp: rat)
  | TICKER (ev_feed: string) (ev_pair: string) (ev_bid: rat) (ev_ask: rat)
      (ev_timestamp: rat) (ev_receipt_timestamp: rat)
  | FUNDING (ev_feed: string) (ev_pair: string) (ev_timestamp: rat) (ev_receipt_timestamp: rat)
      (ev_interval: string) (ev_rate: rat) (ev_rate_daily: rat)
  | OPEN_INTEREST (ev_feed: string) (ev_pair: string) (ev_open_interest: "int option")
      (ev_timestamp: rat) (ev_receipt_timestamp: rat)

text \<open>A loop that delivers one event per entry, or none for an entry it skips. The
  events delivered before an exception have been delivered.\<close>

fun emit_each :: "(entry \<Rightarrow> error + event option) \<Rightarrow> entry list \<Rightarrow> event list \<times> error option" where
  "emit_each body [] = ([], None)"
| "emit_each body (d # ds) =
     (case body d of
        Inl err \<Rightarrow> ([], Some err)
      | Inr ev \<Rightarrow>
          (case emit_each body ds of
             (evs, r) \<Rightarrow> ((case ev of None \<Rightarrow> evs | Some e \<Rightarrow> e # evs), r)))"

definition trade_entry :: "string \<Rightarrow> (string \<Rightarrow> string \<Rightarrow> rat) \<Rightarrow> rat \<Rightarrow> entry \<Rightarrow> error + event option" where
  "trade_entry self_id timestamp_normalize timestamp d =
     (case d_timestamp d of None \<Rightarrow> Inl (KeyError (KStr ''timestamp'')) | Some raw \<Rightarrow>
      case d_symbol d of None \<Rightarrow> Inl (KeyError (KStr ''symbol'')) | Some pair \<Rightarrow>
      case d_side d of None \<Rightarrow> Inl (KeyError (KStr ''side'')) | Some sd \<Rightarrow>
      case d_size d of None \<Rightarrow> Inl (KeyError (KStr ''size'')) | Some sz \<Rightarrow>
      case d_price d of None \<Rightarrow> Inl (KeyError (KStr ''price'')) | Some price \<Rightarrow>
      case d_trdMatchID d of None \<Rightarrow> Inl (KeyError (KStr ''trdMatchID'')) | Some oid \<Rightarrow>
        Inr (Some (TRADES self_id pair (if sd = ''Buy'' then BUY else SELL) sz price oid
                     (timestamp_normalize self_id raw) timestamp)))"

definition Bitmex_trade ::
  "string \<Rightarrow> (string \<Rightarrow> string \<Rightarrow> rat) \<Rightarrow> msg \<Rightarrow> rat \<Rightarrow> event list \<times> error option" where
  "Bitmex_trade self_id timestamp_normalize m timestamp =
     emit_each (trade_entry self_id timestamp_normalize timestamp) (data m)"

definition ticker_entry :: "string \<Rightarrow> (string \<Rightarrow> string \<Rightarrow> rat) \<Rightarrow> rat \<Rightarrow> entry \<Rightarrow> error + event option" where
  "ticker_entry self_id timestamp_normalize timestamp d =
     (case d_symbol d of None \<Rightarrow> Inl (KeyError (KStr ''symbol'')) | Some pair \<Rightarrow>
      case d_bidPrice d of None \<Rightarrow> Inl (KeyError (KStr ''bidPrice'')) | Some bid \<Rightarrow>
      case d_askPrice d of None \<Rightarrow> Inl (KeyError (KStr ''askPrice'')) | Some ask \<Rightarrow>
      case d_timestamp d of None \<Rightarrow> Inl (KeyError (KStr ''timestamp'')) | Some raw \<Rightarrow>
        Inr (Some (TICKER self_id pair bid ask (timestamp_normalize self_id raw) timestamp)))"

definition Bitmex_ticker ::
  "string \<Rightarrow> (string \<Rightarrow> string \<Rightarrow> rat) \<Rightarrow> msg \<Rightarrow> rat \<Rightarrow> event list \<times> error option" where
  "Bitmex_ticker self_id timestamp_normalize m timestamp =
     emit_each (ticker_entry self_id timestamp_normalize timestamp) (data m)"

definition funding_entry :: "string \<Rightarrow> (string \<Rightarrow> string \<Rightarrow> rat) \<Rightarrow> rat \<Rightarrow> entry \<Rightarrow> error + event option" where
  "funding_entry self_id timestamp_normalize timestamp d =
     (case d_timestamp d of None \<Rightarrow> Inl (KeyError (KStr ''timestamp'')) | Some raw \<Rightarrow>
      case d_symbol d of None \<Rightarrow> Inl (KeyError (KStr ''symbol'')) | Some pair \<Rightarrow>
      case d_fundingInterval d of None \<Rightarrow> Inl (KeyError (KStr ''fundingInterval'')) | Some iv \<Rightarrow>
      case d_fundingRate d of None \<Rightarrow> Inl (KeyError (KStr ''fundingRate'')) | Some rate \<Rightarrow>
      case d_fundingRateDaily d of None \<Rightarrow> Inl (KeyError (KStr ''fundingRateDaily'')) | Some daily \<Rightarrow>
        Inr (Some (FUNDING self_id pair (timestamp_normalize self_id raw) timestamp iv rate daily)))"

definition Bitmex_funding ::
  "string \<Rightarrow> (string \<Rightarrow> string \<Rightarrow> rat) \<Rightarrow> msg \<Rightarrow> rat \<Rightarrow> event list \<times> error option" where
  "Bitmex_funding self_id timestamp_normalize m timestamp =
     emit_each (funding_entry self_id timestamp_normalize timestamp) (data m)"

definition instrument_entry :: "string \<Rightarrow> (string \<Rightarrow> string \<Rightarrow> rat) \<Rightarrow> rat \<Rightarrow> entry \<Rightarrow> error + event option" where
  "instrument_entry self_id timestamp_normalize timestamp d =
     (case d_openInterest d of None \<Rightarrow> Inr None | Some oi \<Rightarrow>
      case d_timestamp d of None \<Rightarrow> Inl (KeyError (KStr ''timestamp'')) | Some raw \<Rightarrow>
      case d_symbol d of None \<Rightarrow> Inl (KeyError (KStr ''symbol'')) | Some pair \<Rightarrow>
        Inr (Some (OPEN_INTEREST self_id pair oi (timestamp_normalize self_id raw) timestamp)))"

definition Bitmex_instrument ::
  "string \<Rightarrow> (string \<Rightarrow> string \<Rightarrow> rat) \<Rightarrow> msg \<Rightarrow> rat \<Rightarrow> event list \<times> error option" where
  "Bitmex_instrument self_id timestamp_normalize m timestamp =
     emit_each (instrument_entry self_id timestamp_normalize timestamp) (data m)"

section \<open>Vocabulary of the properties\<close>

text \<open>\<open>OrderIndex[symbol][side][id]\<close> and \<open>Book[symbol][side][price]\<close> as the
  specification reads them: \<^const>\<open>None\<close> when there is no such entry.\<close>

definition index_at :: "feed \<Rightarrow> string \<Rightarrow> side \<Rightarrow> int \<Rightarrow> rat option" where
  "index_at st pair s i = (case order_id st pair of None \<Rightarrow> None | Some idx \<Rightarrow> idx s i)"

definition level_at :: "feed \<Rightarrow> string \<Rightarrow> side \<Rightarrow> rat \<Rightarrow> rat option" where
  "level_at st pair s p = (case l2_book st pair of None \<Rightarrow> None | Some bk \<Rightarrow> bk s p)"

text \<open>Index consistency: every indexed identifier maps to a price with a live level.\<close>

definition consistent :: "feed \<Rightarrow> bool" where
  "consistent st \<longleftrightarrow>
     (\<forall>pair s i p. index_at st pair s i = Some p \<longrightarrow> level_at st pair s p \<noteq> None)"

text \<open>No two identifiers of one symbol and side are indexed at the same price.\<close>

definition one_id_per_price :: "feed \<Rightarrow> string \<Rightarrow> bool" where
  "one_id_per_price st pair \<longleftrightarrow>
     (\<forall>s i j p. index_at st pair s i = Some p \<and> index_at st pair s j = Some p \<longrightarrow> i = j)"

text \<open>The condition on a run of messages: whenever a \<^verbatim>\<open>delete\<close> message is handled, the
  index of its symbol holds one identifier per price. It is a condition on the index
  alone, read in the states the handler itself produces.\<close>

definition delete_ready :: "feed \<Rightarrow> msg \<Rightarrow> bool" where
  "delete_ready st m =
     (case data m of
        [] \<Rightarrow> True
      | d0 # _ \<Rightarrow>
          (case d_symbol d0 of
             None \<Rightarrow> True
           | Some pair \<Rightarrow> action m = ''delete'' \<longrightarrow> one_id_per_price st pair))"

fun deletes_ready :: "feed \<Rightarrow> (msg \<times> rat) list \<Rightarrow> bool" where
  "deletes_ready st [] = True"
| "deletes_ready st ((m, timestamp) # ms) =
     (delete_ready st m \<and> deletes_ready (fst (Bitmex_book st m timestamp)) ms)"

text \<open>An update entry whose identifier the index knows, and the (price, size) pairs that
  the update entries of one side resolve to through the index, in message order.\<close>

definition known :: "index \<Rightarrow> entry \<Rightarrow> bool" where
  "known idx d =
     (case (d_side d, d_size d, d_id d) of
        (Some sd, Some z, Some i) \<Rightarrow> idx (side_of sd) i \<noteq> None
      | _ \<Rightarrow> False)"

definition resolve :: "index \<Rightarrow> side \<Rightarrow> entry \<Rightarrow> (rat \<times> rat) option" where
  "resolve idx s d =
     (case (d_side d, d_size d, d_id d) of
        (Some sd, Some z, Some i) \<Rightarrow>
          if side_of sd = s then map_option (\<lambda>p. (p, z)) (idx s i) else None
      | _ \<Rightarrow> None)"

definition resolved :: "index \<Rightarrow> side \<Rightarrow> entry list \<Rightarrow> (rat \<times> rat) list" where
  "resolved idx s es = List.map_filter (resolve idx s) es"

text \<open>An event that carries the venue time of the entry \<open>d\<close> as its event timestamp and
  the local time as its receipt timestamp.\<close>

definition stamped_by ::
  "(string \<Rightarrow> string \<Rightarrow> rat) \<Rightarrow> string \<Rightarrow> rat \<Rightarrow> entry \<Rightarrow> event \<Rightarrow> bool" where
  "stamped_by timestamp_normalize self_id timestamp d ev =
     (case d_timestamp d of
        None \<Rightarrow> False
      | Some raw \<Rightarrow>
          ev_timestamp ev = timestamp_normalize self_id raw \<and>
          ev_receipt_timestamp ev = timestamp)"

text \<open>Everything but the book and the index of one symbol is the same in two states.\<close>

definition others_kept :: "string \<Rightarrow> feed \<Rightarrow> feed \<Rightarrow> bool" where
  "others_kept pair st st' \<longleftrightarrow>
     pairs st' = pairs st \<and> partial_received st' = partial_received st \<and>
     (\<forall>q. q \<noteq> pair \<longrightarrow> l2_book st' q = l2_book st q \<and> order_id st' q = order_id st q)"

definition id_absent :: "string \<Rightarrow> side \<Rightarrow> int \<Rightarrow> feed \<Rightarrow> bool" where
  "id_absent pair s i st \<longleftrightarrow> (\<exists>idx. order_id st pair = Some idx \<and> idx s i = None)"

text \<open>A snapshot entry with all the fields the \<^verbatim>\<open>partial\<close> loop reads, and the
  (price, size) and (identifier, price) pairs that the entries of one side carry, in
  the order of the message.\<close>

definition complete :: "entry \<Rightarrow> bool" where
  "complete d \<longleftrightarrow> d_side d \<noteq> None \<and> d_price d \<noteq> None \<and> d_size d \<noteq> None \<and> d_id d \<noteq> None"

definition level_of :: "side \<Rightarrow> entry \<Rightarrow> (rat \<times> rat) option" where
  "level_of s d =
     (case (d_side d, d_price d, d_size d) of
        (Some sd, Some p, Some z) \<Rightarrow> if side_of sd = s then Some (p, z) else None
      | _ \<Rightarrow> None)"

definition id_of :: "side \<Rightarrow> entry \<Rightarrow> (int \<times> rat) option" where
  "id_of s d =
     (case (d_side d, d_id d, d_price d) of
        (Some sd, Some i, Some p) \<Rightarrow> if side_of sd = s then Some (i, p) else None
      | _ \<Rightarrow> None)"

definition levels :: "side \<Rightarrow> entry list \<Rightarrow> (rat \<times> rat) list" where
  "levels s es = List.map_filter (level_of s) es"

definition ids :: "side \<Rightarrow> entry list \<Rightarrow> (int \<times> rat) list" where
  "ids s es = List.map_filter (id_of s) es"

text \<open>What a loop over the entries has delivered. For some \<open>n\<close>, the events are, in
  order and one for one, those of the entries among the first \<open>n\<close> that send an event,
  each related to its own entry by \<open>stamped\<close>; \<open>n\<close> is the whole message when no
  exception was raised, and otherwise the position of the entry that raised it.\<close>

definition delivered ::
  "(entry \<Rightarrow> bool) \<Rightarrow> (entry \<Rightarrow> event \<Rightarrow> bool) \<Rightarrow> (entry \<Rightarrow> error \<Rightarrow> bool) \<Rightarrow> entry list
     \<Rightarrow> event list \<times> error option \<Rightarrow> bool" where
  "delivered sends stamped raises ds r \<longleftrightarrow>
     (\<exists>n\<le>length ds.
        list_all2 stamped (filter sends (take n ds)) (fst r) \<and>
        (snd r = None \<longrightarrow> n = length ds) \<and>
        (\<forall>err. snd r = Some err \<longrightarrow> n < length ds \<and> raises (ds ! n) err))"

text \<open>The same for the loop body itself: the relation between an entry and its event
  is that the body returns the event for the entry.\<close>

definition sent_upto ::
  "(entry \<Rightarrow> error + event option) \<Rightarrow> nat \<Rightarrow> entry list \<Rightarrow> event list \<times> error option \<Rightarrow> bool" where
  "sent_upto body n ds r \<longleftrightarrow>
     n \<le> length ds \<and>
     list_all2 (\<lambda>d ev. body d = Inr (Some ev)) (filter (\<lambda>d. body d \<noteq> Inr None) (take n ds)) (fst r) \<and>
     (snd r = None \<longrightarrow> n = length ds) \<and>
     (\<forall>err. snd r = Some err \<longrightarrow> n < length ds \<and> body (ds ! n) = Inl err)"

text \<open>The event timestamp of the book update a call delivered, if it delivered one.\<close>

definition event_time :: "outcome \<Rightarrow> rat option" where
  "event_time r = (case r of Returned (Some bu) \<Rightarrow> Some (bu_timestamp bu) | _ \<Rightarrow> None)"

definition receipt_time :: "outcome \<Rightarrow> rat option" where
  "receipt_time r = (case r of Returned (Some bu) \<Rightarrow> Some (bu_receipt_timestamp bu) | _ \<Rightarrow> None)"

text \<open>The \<^verbatim>\<open>forced\<close> flag and the \<^verbatim>\<open>delta\<close> of one side of the book update a call
  delivered, if it delivered one.\<close>

definition forced_of :: "outcome \<Rightarrow> bool option" where
  "forced_of r = (case r of Returned (Some bu) \<Rightarrow> Some (bu_forced bu) | _ \<Rightarrow> None)"

definition delta_of :: "outcome \<Rightarrow> side \<Rightarrow> (rat \<times> rat) list option" where
  "delta_of r s = (case r of Returned (Some bu) \<Rightarrow> Some (bu_delta bu s) | _ \<Rightarrow> None)"

section \<open>Example states and messages\<close>

text \<open>The object as the constructor leaves it before its first \<^verbatim>\<open>_reset\<close>, with one
  configured symbol, and the scenario of the specification: a snapshot with one bid, an
  insert, an update and a delete.\<close>

definition feed0 :: feed where
  "feed0 = \<lparr>pairs = [''XBTUSD''], partial_received = (\<lambda>_. False), order_id = Map.empty,
            l2_book = Map.empty\<rparr>"

definition order :: "string \<Rightarrow> string \<Rightarrow> rat option \<Rightarrow> rat option \<Rightarrow> int \<Rightarrow> entry" where
  "order sy sd p z i =
     \<lparr>d_symbol = Some sy, d_side = Some sd, d_price = p, d_size = z, d_id = Some i,
      d_timestamp = Some ''2020-02-02T00:30:43.772Z'', d_trdMatchID = None, d_bidPrice = None,
      d_askPrice = None, d_fundingInterval = None, d_fundingRate = None,
      d_fundingRateDaily = None, d_openInterest = None\<rparr>"

definition snapshot_msg :: msg where
  "snapshot_msg = \<lparr>action = ''partial'', data = [order ''XBTUSD'' ''Buy'' (Some 100) (Some 5) 1]\<rparr>"

definition insert_msg :: msg where
  "insert_msg = \<lparr>action = ''insert'', data = [order ''XBTUSD'' ''Buy'' (Some 99) (Some 3) 2]\<rparr>"

definition update_msg :: msg where
  "update_msg = \<lparr>action = ''update'', data = [order ''XBTUSD'' ''Buy'' None (Some 7) 2]\<rparr>"

definition delete_msg :: msg where
  "delete_msg = \<lparr>action = ''delete'', data = [order ''XBTUSD'' ''Buy'' None None 1]\<rparr>"

definition s_reset :: feed where
  "s_reset = Bitmex_reset feed0"

definition s_snapshot :: feed where
  "s_snapshot = \<lparr>pairs = [''XBTUSD''], partial_received = (\<lambda>_. False)(''XBTUSD'' := True),
     order_id = [''XBTUSD'' \<mapsto> (\<lambda>_. Map.empty)(BID := [1 \<mapsto> 100])],
     l2_book = [''XBTUSD'' \<mapsto> (\<lambda>_. Map.empty)(BID := [100 \<mapsto> 5])]\<rparr>"

definition s_insert :: feed where
  "s_insert = \<lparr>pairs = [''XBTUSD''], partial_received = (\<lambda>_. False)(''XBTUSD'' := True),
     order_id = [''XBTUSD'' \<mapsto> (\<lambda>_. Map.empty)(BID := [1 \<mapsto> 100, 2 \<mapsto> 99])],
     l2_book = [''XBTUSD'' \<mapsto> (\<lambda>_. Map.empty)(BID := [100 \<mapsto> 5, 99 \<mapsto> 3])]\<rparr>"

definition s_update :: feed where
  "s_update = \<lparr>pairs = [''XBTUSD''], partial_received = (\<lambda>_. False)(''XBTUSD'' := True),
     order_id = [''XBTUSD'' \<mapsto> (\<lambda>_. Map.empty)(BID := [1 \<mapsto> 100, 2 \<mapsto> 99])],
     l2_book = [''XBTUSD'' \<mapsto> (\<lambda>_. Map.empty)(BID := [100 \<mapsto> 5, 99 \<mapsto> 7])]\<rparr>"

text \<open>An insert of identifier 2 at the price that identifier 1 had.\<close>

definition reinsert_msg :: msg where
  "reinsert_msg = \<lparr>action = ''insert'', data = [order ''XBTUSD'' ''Buy'' (Some 100) (Some 3) 2]\<rparr>"

text \<open>An update of both identifiers in one message.\<close>

definition batch_update_msg :: msg where
  "batch_update_msg = \<lparr>action = ''update'',
     data = [order ''XBTUSD'' ''Buy'' None (Some 8) 1, order ''XBTUSD'' ''Buy'' None (Some 9) 2]\<rparr>"

definition s_batch :: feed where
  "s_batch = \<lparr>pairs = [''XBTUSD''], partial_received = (\<lambda>_. False)(''XBTUSD'' := True),
     order_id = [''XBTUSD'' \<mapsto> (\<lambda>_. Map.empty)(BID := [1 \<mapsto> 100, 2 \<mapsto> 99])],
     l2_book = [''XBTUSD'' \<mapsto> (\<lambda>_. Map.empty)(BID := [100 \<mapsto> 8, 99 \<mapsto> 9])]\<rparr>"

text \<open>A second snapshot, sent while the gate is open.\<close>

definition ask_snapshot_msg :: msg where
  "ask_snapshot_msg = \<lparr>action = ''partial'', data = [order ''XBTUSD'' ''Sell'' (Some 101) (Some 2) 3]\<rparr>"

text \<open>Two identifiers at one price, and the deletes of each.\<close>

definition twin_snapshot_msg :: msg where
  "twin_snapshot_msg = \<lparr>action = ''partial'',
     data = [order ''XBTUSD'' ''Buy'' (Some 100) (Some 5) 1,
             order ''XBTUSD'' ''Buy'' (Some 100) (Some 3) 2]\<rparr>"

definition delete2_msg :: msg where
  "delete2_msg = \<lparr>action = ''delete'', data = [order ''XBTUSD'' ''Buy'' None None 2]\<rparr>"

definition twin :: feed where
  "twin = \<lparr>pairs = [''XBTUSD''], partial_received = (\<lambda>_. False)(''XBTUSD'' := True),
     order_id = [''XBTUSD'' \<mapsto> (\<lambda>_. Map.empty)(BID := [1 \<mapsto> 100, 2 \<mapsto> 100])],
     l2_book = [''XBTUSD'' \<mapsto> (\<lambda>_. Map.empty)(BID := [100 \<mapsto> 3])]\<rparr>"

definition stale :: feed where
  "stale = \<lparr>pairs = [''XBTUSD''], partial_received = (\<lambda>_. False)(''XBTUSD'' := True),
     order_id = [''XBTUSD'' \<mapsto> (\<lambda>_. Map.empty)(BID := [2 \<mapsto> 100])],
     l2_book = [''XBTUSD'' \<mapsto> (\<lambda>_. Map.empty)(BID := Map.empty)]\<rparr>"

text \<open>An update whose second entry names an identifier that was never inserted.\<close>

definition bad_update_msg :: msg where
  "bad_update_msg = \<lparr>action = ''update'',
     data = [order ''XBTUSD'' ''Buy'' None (Some 7) 1, order ''XBTUSD'' ''Buy'' None (Some 1) 9]\<rparr>"

text \<open>The snapshot state with the size of the level at 100 set to 7.\<close>

definition s_bumped :: feed where
  "s_bumped = s_snapshot\<lparr>l2_book := [''XBTUSD'' \<mapsto> (\<lambda>_. Map.empty)(BID := [100 \<mapsto> 7])]\<rparr>"



text \<open>A message of two entries with different venue times, read as a trade, a quote
  and a funding message; an instrument message whose second entry has no
  \<^verbatim>\<open>openInterest\<close> key and whose third has it as \<^verbatim>\<open>null\<close>; and a stand-in for
  \<^verbatim>\<open>timestamp_normalize\<close>.\<close>

definition aux_entry :: entry where
  "aux_entry =
     \<lparr>d_symbol = Some ''XBTUSD'', d_side = Some ''Buy'', d_price = Some 8335, d_size = Some 40,
      d_id = None, d_timestamp = Some ''2018-05-19T12:25:26.632Z'',
      d_trdMatchID = Some ''5f4ecd49'', d_bidPrice = Some 9352, d_askPrice = Some (18705 / 2),
      d_fundingInterval = Some ''2000-01-01T08:00:00.000Z'', d_fundingRate = Some (- 561 / 1000000),
      d_fundingRateDaily = Some (- 1683 / 1000000), d_openInterest = Some (Some 983043322)\<rparr>"

definition later_entry :: entry where
  "later_entry = aux_entry\<lparr>d_side := Some ''Sell'', d_timestamp := Some ''2018-05-19T12:25:27Z''\<rparr>"

definition aux_msg :: msg where
  "aux_msg = \<lparr>action = ''partial'', data = [aux_entry, later_entry]\<rparr>"

definition instrument_msg :: msg where
  "instrument_msg = \<lparr>action = ''partial'',
     data = [aux_entry, aux_entry\<lparr>d_openInterest := None\<rparr>, later_entry\<lparr>d_openInterest := Some None\<rparr>]\<rparr>"

definition stamp :: "string \<Rightarrow> string \<Rightarrow> rat" where
  "stamp fid raw = of_nat (length raw)"

section \<open>Lemmas about the loops\<close>

lemma for_each_invariant_on:
  assumes step: "\<And>d s dl. d \<in> set ds \<Longrightarrow> Q s \<Longrightarrow> Q (fst (body d s dl))"
    and init: "Q st"
  shows "Q (fst (for_each body ds st dl))"
  using step init
proof (induction ds arbitrary: st dl)
  case Nil
  then show ?case by simp
next
  case (Cons d ds)
  obtain st' r where b: "body d st dl = (st', r)" by (cases "body d st dl")
  have q: "Q st'" using Cons.prems(1)[of d st dl] Cons.prems(2) b by simp
  have st: "\<And>e s dl. e \<in> set ds \<Longrightarrow> Q s \<Longrightarrow> Q (fst (body e s dl))"
    using Cons.prems(1) by simp
  show ?case
  proof (cases r)
    case (Inl err)
    then show ?thesis using b q by simp
  next
    case (Inr dl')
    then show ?thesis using b Cons.IH[OF st q, of dl'] by simp
  qed
qed

lemma for_each_append:
  "for_each body (xs @ ys) st dl =
     (case for_each body xs st dl of
        (st', Inl err) \<Rightarrow> (st', Inl err)
      | (st', Inr dl') \<Rightarrow> for_each body ys st' dl')"
  by (induction xs arbitrary: st dl) (simp_all split: prod.splits sum.splits)


lemma fst_deliver: "fst (deliver pair forced ts r) = fst r"
  by (simp add: deliver_def split: prod.splits sum.splits option.splits)

lemma Bitmex_book_open:
  assumes "partial_received st pair" and "d_symbol (hd (data m)) = Some pair" and "data m \<noteq> []"
  shows "Bitmex_book st m ts = book_apply st m pair False ts"
  using assms by (cases "data m") (simp_all add: Bitmex_book_def)

subsection \<open>The symbol field of an entry is not read by the loops\<close>






subsection \<open>Other symbols are not touched\<close>






lemma delete_entry_frame: "others_kept pair st (fst (delete_entry pair d st dl))"
  by (simp add: delete_entry_def others_kept_def Let_def split: option.splits)




subsection \<open>Unknown identifiers\<close>

lemma update_entry_absent:
  "id_absent pair s i st \<Longrightarrow> id_absent pair s i (fst (update_entry pair d st dl))"
  by (auto simp: id_absent_def update_entry_def Let_def split: option.splits)

lemma delete_entry_absent:
  "id_absent pair s i st \<Longrightarrow> id_absent pair s i (fst (delete_entry pair d st dl))"
  by (auto simp: id_absent_def delete_entry_def Let_def split: option.splits)

lemma update_entry_unknown:
  assumes "id_absent pair (side_of sd) i st" and "d_side d = Some sd" and "d_size d = Some z"
    and "d_id d = Some i"
  shows "update_entry pair d st dl = (st, Inl (KeyError (KId i)))"
  using assms by (auto simp: id_absent_def update_entry_def)

lemma delete_entry_unknown:
  assumes "id_absent pair (side_of sd) i st" and "d_side d = Some sd" and "d_id d = Some i"
  shows "delete_entry pair d st dl = (st, Inl (KeyError (KId i)))"
  using assms by (auto simp: id_absent_def delete_entry_def)

subsection \<open>The delete loop\<close>

lemma delete_entry_Inr:
  assumes "delete_entry pair d st dl = (st', Inr dl')"
    and "order_id st pair = Some idx" and "l2_book st pair = Some bk"
  shows "\<exists>sd i p. d_side d = Some sd \<and> d_id d = Some i \<and> idx (side_of sd) i = Some p \<and>
           bk (side_of sd) p \<noteq> None \<and>
           order_id st' pair = Some (idx(side_of sd := (idx (side_of sd))(i := None))) \<and>
           l2_book st' pair = Some (bk(side_of sd := (bk (side_of sd))(p := None))) \<and>
           dl' = dl(side_of sd := dl (side_of sd) @ [(p, 0)])"
  using assms by (auto simp: delete_entry_def Let_def split: option.splits)

lemma delete_entry_ok:
  assumes "d_side d = Some sd" and "d_id d = Some i"
    and "order_id st pair = Some idx" and "idx (side_of sd) i = Some p"
    and "l2_book st pair = Some bk" and "bk (side_of sd) p = Some z"
  shows "delete_entry pair d st dl =
     (st\<lparr>order_id := (order_id st)(pair \<mapsto> idx(side_of sd := (idx (side_of sd))(i := None))),
         l2_book := (l2_book st)(pair \<mapsto> bk(side_of sd := (bk (side_of sd))(p := None)))\<rparr>,
      Inr (dl(side_of sd := dl (side_of sd) @ [(p, 0)])))"
  using assms by (simp add: delete_entry_def)

lemma delete_loop_effect:
  assumes "for_each (delete_entry pair) es st dl = (st', Inr dl')"
    and "order_id st pair = Some idx" and "l2_book st pair = Some bk"
  shows "\<exists>idx' bk'. order_id st' pair = Some idx' \<and> l2_book st' pair = Some bk' \<and>
      (\<forall>s i. idx s i = None \<longrightarrow> idx' s i = None) \<and>
      (\<forall>s p. bk s p = None \<longrightarrow> bk' s p = None \<and> count_list (dl' s) (p, 0) = count_list (dl s) (p, 0)) \<and>
      (\<forall>d\<in>set es. \<exists>sd i p. d_side d = Some sd \<and> d_id d = Some i \<and>
          idx (side_of sd) i = Some p \<and> bk (side_of sd) p \<noteq> None \<and>
          idx' (side_of sd) i = None \<and> bk' (side_of sd) p = None \<and>
          count_list (dl' (side_of sd)) (p, 0) = Suc (count_list (dl (side_of sd)) (p, 0)))"
  using assms
proof (induction es arbitrary: st dl idx bk)
  case Nil
  then show ?case by simp
next
  case (Cons d es)
  obtain st1 r where b: "delete_entry pair d st dl = (st1, r)" by (cases "delete_entry pair d st dl")
  with Cons.prems(1) obtain dl1 where r: "r = Inr dl1"
    by (cases r) auto
  from b r Cons.prems(1) have rest: "for_each (delete_entry pair) es st1 dl1 = (st', Inr dl')"
    by simp
  from delete_entry_Inr[OF b[unfolded r] Cons.prems(2,3)]
  obtain sd i p where h: "d_side d = Some sd" "d_id d = Some i" "idx (side_of sd) i = Some p"
      "bk (side_of sd) p \<noteq> None"
      "order_id st1 pair = Some (idx(side_of sd := (idx (side_of sd))(i := None)))"
      "l2_book st1 pair = Some (bk(side_of sd := (bk (side_of sd))(p := None)))"
      "dl1 = dl(side_of sd := dl (side_of sd) @ [(p, 0)])"
    by blast
  let ?idx1 = "idx(side_of sd := (idx (side_of sd))(i := None))"
  let ?bk1 = "bk(side_of sd := (bk (side_of sd))(p := None))"
  from Cons.IH[OF rest h(5) h(6)]
  obtain idx' bk' where ih: "order_id st' pair = Some idx'" "l2_book st' pair = Some bk'"
      "\<forall>s i. ?idx1 s i = None \<longrightarrow> idx' s i = None"
      "\<forall>s p. ?bk1 s p = None \<longrightarrow> bk' s p = None \<and> count_list (dl' s) (p, 0) = count_list (dl1 s) (p, 0)"
      "\<forall>d\<in>set es. \<exists>sd i p. d_side d = Some sd \<and> d_id d = Some i \<and>
          ?idx1 (side_of sd) i = Some p \<and> ?bk1 (side_of sd) p \<noteq> None \<and>
          idx' (side_of sd) i = None \<and> bk' (side_of sd) p = None \<and>
          count_list (dl' (side_of sd)) (p, 0) = Suc (count_list (dl1 (side_of sd)) (p, 0))"
    by blast
  have m1: "\<forall>s i. idx s i = None \<longrightarrow> idx' s i = None"
  proof (intro allI impI)
    fix s j assume "idx s j = None"
    then have "?idx1 s j = None" by auto
    then show "idx' s j = None" using ih(3) by blast
  qed
  have m2: "\<forall>s q. bk s q = None \<longrightarrow> bk' s q = None \<and> count_list (dl' s) (q, 0) = count_list (dl s) (q, 0)"
  proof (intro allI impI)
    fix s q assume n: "bk s q = None"
    then have n1: "?bk1 s q = None" by auto
    have "\<not> (s = side_of sd \<and> q = p)" using n h(4) by auto
    then have "count_list (dl1 s) (q, 0) = count_list (dl s) (q, 0)"
      by (auto simp: h(7))
    with ih(4) n1 show "bk' s q = None \<and> count_list (dl' s) (q, 0) = count_list (dl s) (q, 0)"
      by simp
  qed
  have hd: "idx' (side_of sd) i = None \<and> bk' (side_of sd) p = None \<and>
          count_list (dl' (side_of sd)) (p, 0) = Suc (count_list (dl (side_of sd)) (p, 0))"
  proof -
    have "?idx1 (side_of sd) i = None" by simp
    then have a: "idx' (side_of sd) i = None" using ih(3) by blast
    have "?bk1 (side_of sd) p = None" by simp
    then have b: "bk' (side_of sd) p = None \<and>
        count_list (dl' (side_of sd)) (p, 0) = count_list (dl1 (side_of sd)) (p, 0)"
      using ih(4) by blast
    have "count_list (dl1 (side_of sd)) (p, 0) = Suc (count_list (dl (side_of sd)) (p, 0))"
      by (simp add: h(7))
    with a b show ?thesis by simp
  qed
  have tl: "\<forall>e\<in>set es. \<exists>sd i p. d_side e = Some sd \<and> d_id e = Some i \<and>
          idx (side_of sd) i = Some p \<and> bk (side_of sd) p \<noteq> None \<and>
          idx' (side_of sd) i = None \<and> bk' (side_of sd) p = None \<and>
          count_list (dl' (side_of sd)) (p, 0) = Suc (count_list (dl (side_of sd)) (p, 0))"
  proof
    fix e assume "e \<in> set es"
    with ih(5) obtain sd' i' p' where e: "d_side e = Some sd'" "d_id e = Some i'"
        "?idx1 (side_of sd') i' = Some p'" "?bk1 (side_of sd') p' \<noteq> None"
        "idx' (side_of sd') i' = None" "bk' (side_of sd') p' = None"
        "count_list (dl' (side_of sd')) (p', 0) = Suc (count_list (dl1 (side_of sd')) (p', 0))"
      by blast
    have i0: "idx (side_of sd') i' = Some p'" using e(3) by (auto split: if_splits)
    have b0: "bk (side_of sd') p' \<noteq> None" using e(4) by (auto split: if_splits)
    have "\<not> (side_of sd' = side_of sd \<and> p' = p)" using e(4) by auto
    then have "count_list (dl1 (side_of sd')) (p', 0) = count_list (dl (side_of sd')) (p', 0)"
      by (auto simp: h(7))
    with e i0 b0 show "\<exists>sd i p. d_side e = Some sd \<and> d_id e = Some i \<and>
          idx (side_of sd) i = Some p \<and> bk (side_of sd) p \<noteq> None \<and>
          idx' (side_of sd) i = None \<and> bk' (side_of sd) p = None \<and>
          count_list (dl' (side_of sd)) (p, 0) = Suc (count_list (dl (side_of sd)) (p, 0))"
      by auto
  qed
  show ?case
    using ih(1,2) m1 m2 hd tl h(1-4) by auto
qed

subsection \<open>Reset\<close>

lemma foldl_reset_pair:
  "foldl reset_pair s ps =
     s\<lparr>l2_book := (\<lambda>q. if q \<in> set ps then Some (\<lambda>_. Map.empty) else l2_book s q),
       order_id := (\<lambda>q. if q \<in> set ps then Some (\<lambda>_. Map.empty) else order_id s q)\<rparr>"
proof (induction ps arbitrary: s)
  case Nil
  then show ?case by simp
next
  case (Cons a ps)
  show ?case
    by (simp only: foldl_Cons Cons.IH) (simp add: reset_pair_def fun_eq_iff)
qed

lemma Bitmex_reset_eq:
  "Bitmex_reset st =
     st\<lparr>partial_received := (\<lambda>_. False),
        l2_book := (\<lambda>q. if q \<in> set (pairs st) then Some (\<lambda>_. Map.empty) else l2_book st q),
        order_id := (\<lambda>q. if q \<in> set (pairs st) then Some (\<lambda>_. Map.empty) else None)\<rparr>"
  by (simp add: Bitmex_reset_def foldl_reset_pair fun_eq_iff)

lemma Bitmex_reset_idem: "Bitmex_reset (Bitmex_reset st) = Bitmex_reset st"
  by (simp add: Bitmex_reset_eq fun_eq_iff)

subsection \<open>How one entry changes the index and the levels\<close>

lemma put_entry_levels:
  assumes "body = partial_entry pair \<or> body = insert_entry pair"
    and "level_at st q s p \<noteq> None"
  shows "level_at (fst (body d st dl)) q s p \<noteq> None"
  using assms
  by (auto simp: partial_entry_def insert_entry_def level_at_def Let_def
      split: option.splits if_splits)

lemma put_entry_index:
  assumes "body = partial_entry pair \<or> body = insert_entry pair"
    and "index_at (fst (body d st dl)) q s i = Some p"
  shows "index_at st q s i = Some p \<or>
         (\<exists>sd. d_side d = Some sd \<and> s = side_of sd \<and> d_price d = Some p \<and> d_id d = Some i \<and>
               level_at (fst (body d st dl)) q s p \<noteq> None)"
  using assms
  by (auto simp: partial_entry_def insert_entry_def level_at_def index_at_def Let_def
      split: option.splits if_splits)

lemma update_entry_levels:
  assumes "level_at st q s p \<noteq> None"
  shows "level_at (fst (update_entry pair d st dl)) q s p \<noteq> None"
  using assms
  by (auto simp: update_entry_def level_at_def Let_def split: option.splits if_splits)

lemma update_entry_index:
  "index_at (fst (update_entry pair d st dl)) q s i = index_at st q s i"
  by (auto simp: update_entry_def index_at_def Let_def split: option.splits)

lemma delete_entry_index:
  assumes "index_at (fst (delete_entry pair d st dl)) q s i = Some p"
  shows "index_at st q s i = Some p"
  using assms
  by (auto simp: delete_entry_def index_at_def Let_def split: option.splits if_splits)

lemma delete_entry_levels:
  assumes "level_at st q s p \<noteq> None"
    and "level_at (fst (delete_entry pair d st dl)) q s p = None"
  shows "\<exists>i. index_at st q s i = Some p \<and> index_at (fst (delete_entry pair d st dl)) q s i = None"
  using assms
  by (auto simp: delete_entry_def index_at_def level_at_def Let_def split: option.splits if_splits)

subsection \<open>The snapshot loop\<close>

lemma partial_entry_complete:
  assumes "complete d" and "l2_book st pair = Some bk" and "order_id st pair = Some idx"
  shows "partial_entry pair d st dl =
     (st\<lparr>l2_book := (l2_book st)(pair \<mapsto> (\<lambda>s. bk s ++ map_of (levels s [d]))),
         order_id := (order_id st)(pair \<mapsto> (\<lambda>s. idx s ++ map_of (ids s [d])))\<rparr>, Inr dl)"
  using assms
  by (auto simp: complete_def partial_entry_def levels_def ids_def level_of_def id_of_def
      List.map_filter_simps fun_eq_iff)

lemma levels_Cons: "levels s (d # es) = levels s [d] @ levels s es"
  by (simp add: levels_def List.map_filter_simps split: option.splits)

lemma ids_Cons: "ids s (d # es) = ids s [d] @ ids s es"
  by (simp add: ids_def List.map_filter_simps split: option.splits)

lemma partial_loop:
  assumes "list_all complete es" and "l2_book st pair = Some bk" and "order_id st pair = Some idx"
  shows "for_each (partial_entry pair) es st dl =
     (st\<lparr>l2_book := (l2_book st)(pair \<mapsto> (\<lambda>s. bk s ++ map_of (rev (levels s es)))),
         order_id := (order_id st)(pair \<mapsto> (\<lambda>s. idx s ++ map_of (rev (ids s es))))\<rparr>, Inr dl)"
  using assms
proof (induction es arbitrary: st bk idx)
  case Nil
  then show ?case by (simp add: levels_def ids_def List.map_filter_simps map_upd_triv)
next
  case (Cons d es)
  let ?bk1 = "\<lambda>s. bk s ++ map_of (levels s [d])"
  let ?idx1 = "\<lambda>s. idx s ++ map_of (ids s [d])"
  let ?st1 = "st\<lparr>l2_book := (l2_book st)(pair \<mapsto> ?bk1), order_id := (order_id st)(pair \<mapsto> ?idx1)\<rparr>"
  have c: "complete d" "list_all complete es" using Cons.prems(1) by simp_all
  have s1: "partial_entry pair d st dl = (?st1, Inr dl)"
    by (rule partial_entry_complete[OF c(1) Cons.prems(2,3)])
  have b1: "l2_book ?st1 pair = Some ?bk1" and i1: "order_id ?st1 pair = Some ?idx1" by simp_all
  have r: "for_each (partial_entry pair) es ?st1 dl =
     (?st1\<lparr>l2_book := (l2_book ?st1)(pair \<mapsto> (\<lambda>s. ?bk1 s ++ map_of (rev (levels s es)))),
         order_id := (order_id ?st1)(pair \<mapsto> (\<lambda>s. ?idx1 s ++ map_of (rev (ids s es))))\<rparr>, Inr dl)"
    by (rule Cons.IH[OF c(2) b1 i1])
  have e1: "bk s ++ map_of (levels s [d]) ++ map_of (rev (levels s es)) =
        bk s ++ map_of (rev (levels s (d # es)))" for s
    by (subst (2) levels_Cons) (simp add: levels_def List.map_filter_simps split: option.splits)
  have e2: "idx s ++ map_of (ids s [d]) ++ map_of (rev (ids s es)) =
        idx s ++ map_of (rev (ids s (d # es)))" for s
    by (subst (2) ids_Cons) (simp add: ids_def List.map_filter_simps split: option.splits)
  have "for_each (partial_entry pair) (d # es) st dl = for_each (partial_entry pair) es ?st1 dl"
    by (simp add: s1)
  also note r
  also have "(?st1\<lparr>l2_book := (l2_book ?st1)(pair \<mapsto> (\<lambda>s. ?bk1 s ++ map_of (rev (levels s es)))),
         order_id := (order_id ?st1)(pair \<mapsto> (\<lambda>s. ?idx1 s ++ map_of (rev (ids s es))))\<rparr>, Inr dl) =
     (st\<lparr>l2_book := (l2_book st)(pair \<mapsto> (\<lambda>s. bk s ++ map_of (rev (levels s (d # es))))),
         order_id := (order_id st)(pair \<mapsto> (\<lambda>s. idx s ++ map_of (rev (ids s (d # es)))))\<rparr>, Inr dl)"
    by (simp add: e1 e2)
  finally show ?case .
qed

subsection \<open>A snapshot message as a whole\<close>

lemma graph_map_of_rev:
  assumes "distinct (map fst xs)"
  shows "Map.graph (map_of (rev xs)) = set xs"
proof -
  have "distinct (map fst (rev xs))" using assms by (simp add: rev_map[symmetric])
  then show ?thesis by (auto simp: Map.graph_def)
qed

lemma partial_message:
  assumes "action m = ''partial''" and "data m = d0 # ds" and "d_symbol d0 = Some pair"
    and "list_all complete (data m)"
    and "l2_book st pair = Some bk" and "order_id st pair = Some idx"
  shows "Bitmex_book st m timestamp =
     (st\<lparr>partial_received := (partial_received st)(pair := True),
         l2_book := (l2_book st)(pair \<mapsto> (\<lambda>s. bk s ++ map_of (rev (levels s (data m))))),
         order_id := (order_id st)(pair \<mapsto> (\<lambda>s. idx s ++ map_of (rev (ids s (data m)))))\<rparr>,
      Returned (Some \<lparr>bu_book = (\<lambda>s. bk s ++ map_of (rev (levels s (data m)))),
                      bu_book_type = L2_BOOK, bu_pair = pair,
                      bu_forced = (\<not> partial_received st pair), bu_delta = (\<lambda>_. []),
                      bu_timestamp = timestamp, bu_receipt_timestamp = timestamp\<rparr>))"
proof (cases "partial_received st pair")
  case True
  then have g: "(partial_received st)(pair := True) = partial_received st"
    by (auto simp: fun_eq_iff)
  show ?thesis
    using assms True partial_loop[OF assms(4) assms(5) assms(6), of "\<lambda>_. []"]
    by (simp add: Bitmex_book_def book_apply_def deliver_def g)
next
  case False
  let ?st = "st\<lparr>partial_received := (partial_received st)(pair := True)\<rparr>"
  have b: "l2_book ?st pair = Some bk" and i: "order_id ?st pair = Some idx"
    using assms by simp_all
  show ?thesis
    using assms False partial_loop[OF assms(4) b i, of "\<lambda>_. []"]
    by (simp add: Bitmex_book_def book_apply_def deliver_def)
qed

subsection \<open>Index consistency, step by step\<close>

lemma consistent_put_entry:
  assumes b: "body = partial_entry pair \<or> body = insert_entry pair" and c: "consistent st"
  shows "consistent (fst (body d st dl))"
  unfolding consistent_def
proof (intro allI impI)
  fix q s i p
  assume a: "index_at (fst (body d st dl)) q s i = Some p"
  from put_entry_index[OF b a]
  show "level_at (fst (body d st dl)) q s p \<noteq> None"
  proof
    assume "index_at st q s i = Some p"
    with c have "level_at st q s p \<noteq> None" by (auto simp: consistent_def)
    then show ?thesis by (rule put_entry_levels[OF b])
  next
    assume "\<exists>sd. d_side d = Some sd \<and> s = side_of sd \<and> d_price d = Some p \<and> d_id d = Some i \<and>
               level_at (fst (body d st dl)) q s p \<noteq> None"
    then show ?thesis by blast
  qed
qed

lemma consistent_update_entry:
  assumes "consistent st"
  shows "consistent (fst (update_entry pair d st dl))"
  using assms update_entry_levels unfolding consistent_def update_entry_index by blast

lemma one_id_delete_entry:
  assumes "one_id_per_price st q"
  shows "one_id_per_price (fst (delete_entry pair d st dl)) q"
  using assms unfolding one_id_per_price_def
  by (blast dest: delete_entry_index)

lemma delete_entry_index_other:
  assumes "q \<noteq> pair"
  shows "index_at (fst (delete_entry pair d st dl)) q s i = index_at st q s i"
  using assms delete_entry_frame[of pair st d dl]
  by (simp add: others_kept_def index_at_def)

lemma consistent_delete_entry:
  assumes c: "consistent st" and u: "one_id_per_price st pair"
  shows "consistent (fst (delete_entry pair d st dl))"
  unfolding consistent_def
proof (intro allI impI)
  fix q s i p
  let ?st' = "fst (delete_entry pair d st dl)"
  assume a: "index_at ?st' q s i = Some p"
  then have b: "index_at st q s i = Some p" by (rule delete_entry_index)
  with c have l: "level_at st q s p \<noteq> None" by (auto simp: consistent_def)
  show "level_at ?st' q s p \<noteq> None"
  proof
    assume "level_at ?st' q s p = None"
    from delete_entry_levels[OF l this]
    obtain j where j: "index_at st q s j = Some p" "index_at ?st' q s j = None" by blast
    have "q = pair"
    proof (rule ccontr)
      assume "q \<noteq> pair"
      then have "index_at ?st' q s j = index_at st q s j" by (rule delete_entry_index_other)
      with j show False by simp
    qed
    with u b j(1) have "i = j" unfolding one_id_per_price_def by blast
    with a j(2) show False by simp
  qed
qed

lemma consistent_reset: "consistent (Bitmex_reset st)"
  by (simp add: consistent_def index_at_def Bitmex_reset_eq)

lemma consistent_gate: "consistent (st\<lparr>partial_received := g\<rparr>) = consistent st"
  by (simp add: consistent_def index_at_def level_at_def)

lemma one_id_gate: "one_id_per_price (st\<lparr>partial_received := g\<rparr>) pair = one_id_per_price st pair"
  by (simp add: one_id_per_price_def index_at_def)

lemma consistent_book_apply:
  assumes c: "consistent st" and u: "action m = ''delete'' \<longrightarrow> one_id_per_price st pair"
  shows "consistent (fst (book_apply st m pair forced ts))"
proof -
  have 1: "consistent (fst (for_each (partial_entry pair) (data m) st dl))" for dl
    by (rule for_each_invariant_on[where Q = consistent])
       (simp_all add: consistent_put_entry[where body = "partial_entry pair" and pair = pair] c)
  have 2: "consistent (fst (for_each (insert_entry pair) (data m) st dl))" for dl
    by (rule for_each_invariant_on[where Q = consistent])
       (simp_all add: consistent_put_entry[where body = "insert_entry pair" and pair = pair] c)
  have 3: "consistent (fst (for_each (update_entry pair) (data m) st dl))" for dl
    by (rule for_each_invariant_on[where Q = consistent]) (simp_all add: consistent_update_entry c)
  have 4: "action m = ''delete'' \<Longrightarrow>
      consistent (fst (for_each (delete_entry pair) (data m) st dl))" for dl
  proof -
    assume "action m = ''delete''"
    with u have u': "one_id_per_price st pair" by simp
    have "consistent (fst (for_each (delete_entry pair) (data m) st dl)) \<and>
          one_id_per_price (fst (for_each (delete_entry pair) (data m) st dl)) pair"
      by (rule for_each_invariant_on[where Q = "\<lambda>s. consistent s \<and> one_id_per_price s pair"])
         (simp_all add: consistent_delete_entry one_id_delete_entry c u')
    then show ?thesis by simp
  qed
  show ?thesis
    using 1 2 3 4 c by (simp add: book_apply_def fst_deliver)
qed

lemma consistent_Bitmex_book:
  assumes c: "consistent st" and r: "delete_ready st m"
  shows "consistent (fst (Bitmex_book st m ts))"
proof (cases "data m")
  case Nil
  then show ?thesis using c by (simp add: Bitmex_book_def)
next
  case (Cons d0 ds)
  show ?thesis
  proof (cases "d_symbol d0")
    case None
    then show ?thesis using c Cons by (simp add: Bitmex_book_def)
  next
    case (Some pair)
    have u: "action m = ''delete'' \<longrightarrow> one_id_per_price st pair"
      using r Cons Some by (simp add: delete_ready_def)
    have g: "consistent (st\<lparr>partial_received := g\<rparr>)"
      and ug: "action m = ''delete'' \<longrightarrow> one_id_per_price (st\<lparr>partial_received := g\<rparr>) pair" for g
      using c u by (simp_all add: consistent_gate one_id_gate)
    show ?thesis
      using c Cons Some consistent_book_apply[OF c u] consistent_book_apply[OF g ug]
      by (simp add: Bitmex_book_def)
  qed
qed

lemma consistent_run:
  assumes "consistent st" and "deletes_ready st ms"
  shows "consistent (run st ms)"
  using assms
proof (induction ms arbitrary: st)
  case Nil
  then show ?case by simp
next
  case (Cons x ms)
  obtain m ts where x: "x = (m, ts)" by (cases x)
  have "consistent (fst (Bitmex_book st m ts))"
    using Cons.prems x by (simp add: consistent_Bitmex_book)
  then show ?case using Cons x by simp
qed

subsection \<open>What a loop that ends without an exception has done\<close>






lemma resolved_Cons: "resolved idx s (d # es) = resolved idx s [d] @ resolved idx s es"
  by (simp add: resolved_def List.map_filter_simps split: option.splits)

lemma update_entry_known:
  assumes "known idx d" and "l2_book st pair = Some bk" and "order_id st pair = Some idx"
  shows "update_entry pair d st dl =
     (st\<lparr>l2_book := (l2_book st)(pair \<mapsto> (\<lambda>s. bk s ++ map_of (resolved idx s [d])))\<rparr>,
      Inr (\<lambda>s. dl s @ resolved idx s [d]))"
proof -
  from assms(1) obtain sd z i p where f: "d_side d = Some sd" "d_size d = Some z" "d_id d = Some i"
      "idx (side_of sd) i = Some p"
    by (auto simp: known_def split: option.splits)
  have i1: "(idx (side_of sd))(i \<mapsto> p) = idx (side_of sd)"
    using f(4) by (simp add: map_upd_triv)
  have i2: "(order_id st)(pair \<mapsto> idx) = order_id st"
    using assms(3) by (simp add: map_upd_triv)
  have r: "resolved idx s [d] = (if s = side_of sd then [(p, z)] else [])" for s
    using f by (auto simp: resolved_def resolve_def List.map_filter_simps)
  show ?thesis
    using f assms(2,3) by (simp add: update_entry_def i1 i2 r fun_eq_iff)
qed

lemma update_loop:
  assumes "list_all (known idx) es" and "l2_book st pair = Some bk" and "order_id st pair = Some idx"
  shows "for_each (update_entry pair) es st dl =
     (st\<lparr>l2_book := (l2_book st)(pair \<mapsto> (\<lambda>s. bk s ++ map_of (rev (resolved idx s es))))\<rparr>,
      Inr (\<lambda>s. dl s @ resolved idx s es))"
  using assms
proof (induction es arbitrary: st bk dl)
  case Nil
  then show ?case by (simp add: resolved_def List.map_filter_simps map_upd_triv)
next
  case (Cons d es)
  let ?bk1 = "\<lambda>s. bk s ++ map_of (resolved idx s [d])"
  let ?dl1 = "\<lambda>s. dl s @ resolved idx s [d]"
  let ?st1 = "st\<lparr>l2_book := (l2_book st)(pair \<mapsto> ?bk1)\<rparr>"
  have c: "known idx d" "list_all (known idx) es" using Cons.prems(1) by simp_all
  have s1: "update_entry pair d st dl = (?st1, Inr ?dl1)"
    by (rule update_entry_known[OF c(1) Cons.prems(2,3)])
  have b1: "l2_book ?st1 pair = Some ?bk1" and i1: "order_id ?st1 pair = Some idx"
    using Cons.prems(3) by simp_all
  have r: "for_each (update_entry pair) es ?st1 ?dl1 =
     (?st1\<lparr>l2_book := (l2_book ?st1)(pair \<mapsto> (\<lambda>s. ?bk1 s ++ map_of (rev (resolved idx s es))))\<rparr>,
      Inr (\<lambda>s. ?dl1 s @ resolved idx s es))"
    by (rule Cons.IH[OF c(2) b1 i1])
  have e1: "bk s ++ map_of (resolved idx s [d]) ++ map_of (rev (resolved idx s es)) =
        bk s ++ map_of (rev (resolved idx s (d # es)))" for s
    by (subst (2) resolved_Cons) (simp add: resolved_def List.map_filter_simps split: option.splits)
  have e3: "dl s @ resolved idx s [d] @ resolved idx s es = dl s @ resolved idx s (d # es)" for s
    by (simp add: resolved_Cons[of idx s d es])
  have "for_each (update_entry pair) (d # es) st dl = for_each (update_entry pair) es ?st1 ?dl1"
    by (simp add: s1)
  also note r
  also have "(?st1\<lparr>l2_book := (l2_book ?st1)(pair \<mapsto> (\<lambda>s. ?bk1 s ++ map_of (rev (resolved idx s es))))\<rparr>,
      Inr (\<lambda>s. ?dl1 s @ resolved idx s es)) =
     (st\<lparr>l2_book := (l2_book st)(pair \<mapsto> (\<lambda>s. bk s ++ map_of (rev (resolved idx s (d # es)))))\<rparr>,
      Inr (\<lambda>s. dl s @ resolved idx s (d # es)))"
    by (simp add: e1 e3)
  finally show ?case .
qed

lemma update_entry_Inr:
  assumes "update_entry pair d st dl = (st', Inr dl')" and "order_id st pair = Some idx"
  shows "known idx d \<and> order_id st' pair = Some idx"
  using assms
  by (auto simp: update_entry_def known_def Let_def map_upd_triv split: option.splits)

lemma update_loop_Inr:
  assumes "for_each (update_entry pair) es st dl = (st', Inr dl')" and "order_id st pair = Some idx"
  shows "list_all (known idx) es"
  using assms
proof (induction es arbitrary: st dl)
  case Nil
  then show ?case by simp
next
  case (Cons d es)
  obtain s1 r where b: "update_entry pair d st dl = (s1, r)" by (cases "update_entry pair d st dl")
  with Cons.prems(1) obtain dl1 where r: "r = Inr dl1" by (cases r) auto
  from b r Cons.prems(1) have rest: "for_each (update_entry pair) es s1 dl1 = (st', Inr dl')" by simp
  from update_entry_Inr[OF b[unfolded r] Cons.prems(2)]
  have k: "known idx d" and i: "order_id s1 pair = Some idx" by simp_all
  from Cons.IH[OF rest i] k show ?case by simp
qed

lemma deliver_Returned:
  assumes "deliver pair forced ts r = (st', Returned (Some bu))"
  shows "r = (st', Inr (bu_delta bu)) \<and> l2_book st' pair = Some (bu_book bu) \<and>
         bu_forced bu = forced \<and> bu_pair bu = pair"
  using assms by (auto simp: deliver_def split: prod.splits sum.splits option.splits)




subsection \<open>Timestamps\<close>

lemma emit_each_Inl:
  "body d = Inl err \<Longrightarrow> emit_each body (d # ds) = ([], Some err)"
  by simp

lemma emit_each_skip:
  "body d = Inr None \<Longrightarrow> emit_each body (d # ds) = emit_each body ds"
  by (simp split: prod.splits)

lemma emit_each_send:
  "body d = Inr (Some e) \<Longrightarrow>
     emit_each body (d # ds) = (e # fst (emit_each body ds), snd (emit_each body ds))"
  by (simp split: prod.splits)

lemma sent_upto_Inl:
  assumes "body d = Inl err"
  shows "sent_upto body 0 (d # ds) ([], Some err)"
  using assms by (simp add: sent_upto_def)

lemma sent_upto_skip:
  assumes "body d = Inr None" and "sent_upto body n ds r"
  shows "sent_upto body (Suc n) (d # ds) r"
  using assms by (simp add: sent_upto_def)

lemma sent_upto_send:
  assumes "body d = Inr (Some e)" and "sent_upto body n ds r"
  shows "sent_upto body (Suc n) (d # ds) (e # fst r, snd r)"
  using assms by (simp add: sent_upto_def)

lemma emit_each_shape: "\<exists>n. sent_upto body n ds (emit_each body ds)"
proof (induction ds)
  case Nil
  have "sent_upto body 0 [] (emit_each body [])" by (simp add: sent_upto_def)
  then show ?case ..
next
  case (Cons d ds)
  then obtain n where n: "sent_upto body n ds (emit_each body ds)" ..
  show ?case
  proof (cases "body d")
    case (Inl err)
    then have e: "emit_each body (d # ds) = ([], Some err)" by (rule emit_each_Inl)
    have "sent_upto body 0 (d # ds) (emit_each body (d # ds))"
      unfolding e using Inl by (rule sent_upto_Inl)
    then show ?thesis ..
  next
    case (Inr ev)
    show ?thesis
    proof (cases ev)
      case None
      with Inr have b: "body d = Inr None" by simp
      have e: "emit_each body (d # ds) = emit_each body ds"
        using b by (rule emit_each_skip)
      have "sent_upto body (Suc n) (d # ds) (emit_each body (d # ds))"
        unfolding e using b n by (rule sent_upto_skip)
      then show ?thesis ..
    next
      case (Some x)
      with Inr have b: "body d = Inr (Some x)" by simp
      have e: "emit_each body (d # ds) = (x # fst (emit_each body ds), snd (emit_each body ds))"
        using b by (rule emit_each_send)
      have "sent_upto body (Suc n) (d # ds) (emit_each body (d # ds))"
        unfolding e using b n by (rule sent_upto_send)
      then show ?thesis ..
    qed
  qed
qed

lemma delivered_emit_each:
  assumes s: "\<And>d. sends d \<longleftrightarrow> body d \<noteq> Inr None"
    and t: "\<And>d ev. body d = Inr (Some ev) \<Longrightarrow> stamped d ev"
    and e: "\<And>d err. body d = Inl err \<Longrightarrow> raises d err"
  shows "delivered sends stamped raises ds (emit_each body ds)"
proof -
  from emit_each_shape[of body ds] obtain n where "sent_upto body n ds (emit_each body ds)" ..
  then have n1: "n \<le> length ds"
    and n2: "list_all2 (\<lambda>d ev. body d = Inr (Some ev))
       (filter (\<lambda>d. body d \<noteq> Inr None) (take n ds)) (fst (emit_each body ds))"
    and n3: "snd (emit_each body ds) = None \<longrightarrow> n = length ds"
    and n4: "\<forall>err. snd (emit_each body ds) = Some err \<longrightarrow> n < length ds \<and> body (ds ! n) = Inl err"
    by (simp_all add: sent_upto_def)
  have f: "filter sends (take n ds) = filter (\<lambda>d. body d \<noteq> Inr None) (take n ds)"
    by (rule filter_cong) (simp_all add: s)
  have a: "list_all2 stamped (filter sends (take n ds)) (fst (emit_each body ds))"
    unfolding f using n2 by (rule list_all2_mono) (rule t)
  have c: "\<forall>err. snd (emit_each body ds) = Some err \<longrightarrow> n < length ds \<and> raises (ds ! n) err"
  proof (intro allI impI)
    fix err assume "snd (emit_each body ds) = Some err"
    with n4 have "n < length ds" "body (ds ! n) = Inl err" by simp_all
    then show "n < length ds \<and> raises (ds ! n) err" using e by simp
  qed
  have "n \<le> length ds \<and>
        list_all2 stamped (filter sends (take n ds)) (fst (emit_each body ds)) \<and>
        (snd (emit_each body ds) = None \<longrightarrow> n = length ds) \<and>
        (\<forall>err. snd (emit_each body ds) = Some err \<longrightarrow> n < length ds \<and> raises (ds ! n) err)"
    using n1 a n3 c by (intro conjI)
  then show ?thesis
    unfolding delivered_def by (rule exI[of _ n])
qed

lemma trade_entry_stamped:
  assumes "trade_entry fid tn ts d = Inr (Some ev)"
  shows "stamped_by tn fid ts d ev"
  using assms by (auto simp: trade_entry_def stamped_by_def split: option.splits)

lemma ticker_entry_stamped:
  assumes "ticker_entry fid tn ts d = Inr (Some ev)"
  shows "stamped_by tn fid ts d ev"
  using assms by (auto simp: ticker_entry_def stamped_by_def split: option.splits)

lemma funding_entry_stamped:
  assumes "funding_entry fid tn ts d = Inr (Some ev)"
  shows "stamped_by tn fid ts d ev"
  using assms by (auto simp: funding_entry_def stamped_by_def split: option.splits)

lemma instrument_entry_stamped:
  assumes "instrument_entry fid tn ts d = Inr (Some ev)"
  shows "stamped_by tn fid ts d ev"
  using assms by (auto simp: instrument_entry_def stamped_by_def split: option.splits)

lemma trade_entry_sends: "trade_entry fid tn ts d \<noteq> Inr None"
  by (simp add: trade_entry_def split: option.splits)

lemma ticker_entry_sends: "ticker_entry fid tn ts d \<noteq> Inr None"
  by (simp add: ticker_entry_def split: option.splits)

lemma funding_entry_sends: "funding_entry fid tn ts d \<noteq> Inr None"
  by (simp add: funding_entry_def split: option.splits)

lemma instrument_entry_sends:
  "d_openInterest d \<noteq> None \<longleftrightarrow> instrument_entry fid tn ts d \<noteq> Inr None"
  by (simp add: instrument_entry_def split: option.splits)

lemma book_update_times:
  assumes "Bitmex_book st m ts = (st', Returned (Some bu))"
  shows "bu_timestamp bu = ts \<and> bu_receipt_timestamp bu = ts"
proof -
  have d: "deliver pair forced ts r = (st', Returned (Some bu)) \<Longrightarrow>
      bu_timestamp bu = ts \<and> bu_receipt_timestamp bu = ts" for pair forced r
    by (auto simp: deliver_def split: prod.splits sum.splits option.splits)
  have a: "book_apply s m pair forced ts = (st', Returned (Some bu)) \<Longrightarrow>
      bu_timestamp bu = ts \<and> bu_receipt_timestamp bu = ts" for s pair forced
    using d by (auto simp: book_apply_def split: if_splits)
  show ?thesis
    using assms a by (auto simp: Bitmex_book_def split: list.splits option.splits if_splits)
qed

subsection \<open>The scenario, step by step\<close>

lemmas handler_defs = Bitmex_book_def book_apply_def deliver_def side_of_def order_def
  partial_entry_def insert_entry_def update_entry_def delete_entry_def

lemma s_reset_eq:
  "s_reset = \<lparr>pairs = [''XBTUSD''], partial_received = (\<lambda>_. False),
     order_id = [''XBTUSD'' \<mapsto> (\<lambda>_. Map.empty)],
     l2_book = [''XBTUSD'' \<mapsto> (\<lambda>_. Map.empty)]\<rparr>"
  by (simp add: s_reset_def Bitmex_reset_def feed0_def reset_pair_def)

lemma run_snapshot:
  "Bitmex_book s_reset snapshot_msg ts =
     (s_snapshot, Returned (Some \<lparr>bu_book = (\<lambda>_. Map.empty)(BID := [100 \<mapsto> 5]), bu_book_type = L2_BOOK,
        bu_pair = ''XBTUSD'', bu_forced = True, bu_delta = (\<lambda>_. []),
        bu_timestamp = ts, bu_receipt_timestamp = ts\<rparr>))"
  by (simp add: s_reset_eq s_snapshot_def snapshot_msg_def handler_defs)

lemma run_insert:
  "Bitmex_book s_snapshot insert_msg ts =
     (s_insert, Returned (Some \<lparr>bu_book = (\<lambda>_. Map.empty)(BID := [100 \<mapsto> 5, 99 \<mapsto> 3]),
        bu_book_type = L2_BOOK, bu_pair = ''XBTUSD'', bu_forced = False,
        bu_delta = (\<lambda>_. [])(BID := [(99, 3)]),
        bu_timestamp = ts, bu_receipt_timestamp = ts\<rparr>))"
  by (simp add: s_snapshot_def s_insert_def insert_msg_def handler_defs)

lemma run_update:
  "Bitmex_book s_insert update_msg ts =
     (s_update, Returned (Some \<lparr>bu_book = (\<lambda>_. Map.empty)(BID := [100 \<mapsto> 5, 99 \<mapsto> 7]),
        bu_book_type = L2_BOOK, bu_pair = ''XBTUSD'', bu_forced = False,
        bu_delta = (\<lambda>_. [])(BID := [(99, 7)]),
        bu_timestamp = ts, bu_receipt_timestamp = ts\<rparr>))"
  by (simp add: s_insert_def s_update_def update_msg_def handler_defs)

lemma run_twin_snapshot:
  "Bitmex_book s_reset twin_snapshot_msg ts =
     (twin, Returned (Some \<lparr>bu_book = (\<lambda>_. Map.empty)(BID := [100 \<mapsto> 3]), bu_book_type = L2_BOOK,
        bu_pair = ''XBTUSD'', bu_forced = True, bu_delta = (\<lambda>_. []),
        bu_timestamp = ts, bu_receipt_timestamp = ts\<rparr>))"
  by (simp add: s_reset_eq twin_def twin_snapshot_msg_def handler_defs)

lemma run_twin_delete:
  "Bitmex_book twin delete_msg ts =
     (stale, Returned (Some \<lparr>bu_book = (\<lambda>_. Map.empty)(BID := Map.empty), bu_book_type = L2_BOOK,
        bu_pair = ''XBTUSD'', bu_forced = False, bu_delta = (\<lambda>_. [])(BID := [(100, 0)]),
        bu_timestamp = ts, bu_receipt_timestamp = ts\<rparr>))"
  by (simp add: twin_def stale_def delete_msg_def handler_defs fun_eq_iff)

lemma aux_runs:
  "Bitmex_trade ''BITMEX'' stamp aux_msg 7 =
     ([TRADES ''BITMEX'' ''XBTUSD'' BUY 40 8335 ''5f4ecd49'' 24 7,
       TRADES ''BITMEX'' ''XBTUSD'' SELL 40 8335 ''5f4ecd49'' 20 7], None)"
  "Bitmex_ticker ''BITMEX'' stamp aux_msg 7 =
     ([TICKER ''BITMEX'' ''XBTUSD'' 9352 (18705 / 2) 24 7,
       TICKER ''BITMEX'' ''XBTUSD'' 9352 (18705 / 2) 20 7], None)"
  "Bitmex_funding ''BITMEX'' stamp aux_msg 7 =
     ([FUNDING ''BITMEX'' ''XBTUSD'' 24 7 ''2000-01-01T08:00:00.000Z'' (- 561 / 1000000)
         (- 1683 / 1000000),
       FUNDING ''BITMEX'' ''XBTUSD'' 20 7 ''2000-01-01T08:00:00.000Z'' (- 561 / 1000000)
         (- 1683 / 1000000)], None)"
  "Bitmex_instrument ''BITMEX'' stamp instrument_msg 7 =
     ([OPEN_INTEREST ''BITMEX'' ''XBTUSD'' (Some 983043322) 24 7,
       OPEN_INTEREST ''BITMEX'' ''XBTUSD'' None 20 7], None)"
  by (simp_all add: Bitmex_trade_def Bitmex_ticker_def Bitmex_funding_def Bitmex_instrument_def
      trade_entry_def ticker_entry_def funding_entry_def instrument_entry_def aux_msg_def
      instrument_msg_def aux_entry_def later_entry_def stamp_def)

lemma batch_resolved:
  "resolved ((\<lambda>_. Map.empty)(BID := [1 \<mapsto> 100, 2 \<mapsto> 99])) s (data batch_update_msg)
     = (if s = BID then [(100, 8), (99, 9)] else [])"
  by (simp add: resolved_def resolve_def batch_update_msg_def order_def side_of_def
      List.map_filter_simps)

section \<open>Properties\<close>

text \<open>
  Claim C1. While the gate of a symbol is unset, a book message for that symbol whose
  action is not \<^verbatim>\<open>partial\<close> (an insert, an update, a delete, or any other tag) is
  discarded: the handler returns without calling the callback, and the whole state, so
  the book, the index and the gate of every symbol, is the state before the call.
\<close>

theorem gate_discards:
  assumes "data m = d0 # ds" and "d_symbol d0 = Some pair"
    and "\<not> partial_received st pair" and "action m \<noteq> ''partial''"
  shows "Bitmex_book st m timestamp = (st, Returned None)"
  using assms by (simp add: Bitmex_book_def)

text \<open>
  The insert of the scenario, sent right after a reset.
\<close>

theorem gate_discards_witness:
  "data insert_msg = [order ''XBTUSD'' ''Buy'' (Some 99) (Some 3) 2] \<and>
   \<not> partial_received s_reset ''XBTUSD'' \<and> action insert_msg \<noteq> ''partial'' \<and>
   Bitmex_book s_reset insert_msg 1 = (s_reset, Returned None)"
proof -
  have a: "data insert_msg = order ''XBTUSD'' ''Buy'' (Some 99) (Some 3) 2 # []"
    by (simp add: insert_msg_def)
  have b: "d_symbol (order ''XBTUSD'' ''Buy'' (Some 99) (Some 3) 2) = Some ''XBTUSD''"
    by (simp add: order_def)
  have c: "\<not> partial_received s_reset ''XBTUSD''" by (simp add: s_reset_eq)
  have d: "action insert_msg \<noteq> ''partial''" by (simp add: insert_msg_def)
  from gate_discards[OF a b c d, of 1] a c d show ?thesis by simp
qed

text \<open>
  Claim C2, as the code has it. For a \<^verbatim>\<open>partial\<close> message on a configured symbol whose
  entries carry side, price, size and identifier, the handler sets the gate and delivers
  a book update whose \<^verbatim>\<open>forced\<close> flag is true exactly when the gate was unset before
  the message. The loop writes the entries over the book and the index that are there:
  each side of the book afterwards is the side before, overridden by the entries of that
  side in message order, and nothing that was there before is removed. When a side was
  empty before (as it is after a reset) and the prices of its entries are distinct, that
  side is exactly the set of the (price, size) pairs of the entries.
\<close>

theorem snapshot_overlays:
  assumes "action m = ''partial''" and "data m = d0 # ds" and "d_symbol d0 = Some pair"
    and "list_all complete (data m)"
    and "l2_book st pair = Some bk" and "order_id st pair = Some idx"
  shows "Bitmex_book st m timestamp =
     (st\<lparr>partial_received := (partial_received st)(pair := True),
         l2_book := (l2_book st)(pair \<mapsto> (\<lambda>s. bk s ++ map_of (rev (levels s (data m))))),
         order_id := (order_id st)(pair \<mapsto> (\<lambda>s. idx s ++ map_of (rev (ids s (data m)))))\<rparr>,
      Returned (Some \<lparr>bu_book = (\<lambda>s. bk s ++ map_of (rev (levels s (data m)))),
                      bu_book_type = L2_BOOK, bu_pair = pair,
                      bu_forced = (\<not> partial_received st pair), bu_delta = (\<lambda>_. []),
                      bu_timestamp = timestamp, bu_receipt_timestamp = timestamp\<rparr>))
    \<and> (\<forall>s. bk s = Map.empty \<and> distinct (map fst (levels s (data m))) \<longrightarrow>
          Map.graph (bk s ++ map_of (rev (levels s (data m)))) = set (levels s (data m)))"
  using partial_message[OF assms] by (simp add: graph_map_of_rev)

text \<open>
  A snapshot of one ask, sent after the snapshot of the scenario: the bid stays.
\<close>

theorem snapshot_overlays_witness:
  "Bitmex_book s_snapshot ask_snapshot_msg 2 =
     (s_snapshot\<lparr>l2_book := [''XBTUSD'' \<mapsto> (\<lambda>_. Map.empty)(BID := [100 \<mapsto> 5], ASK := [101 \<mapsto> 2])],
          order_id := [''XBTUSD'' \<mapsto> (\<lambda>_. Map.empty)(BID := [1 \<mapsto> 100], ASK := [3 \<mapsto> 101])]\<rparr>,
      Returned (Some \<lparr>bu_book = (\<lambda>_. Map.empty)(BID := [100 \<mapsto> 5], ASK := [101 \<mapsto> 2]),
                      bu_book_type = L2_BOOK, bu_pair = ''XBTUSD'',
                      bu_forced = False, bu_delta = (\<lambda>_. []),
                      bu_timestamp = 2, bu_receipt_timestamp = 2\<rparr>))"
proof -
  let ?d = "order ''XBTUSD'' ''Sell'' (Some 101) (Some 2) 3"
  have a: "action ask_snapshot_msg = ''partial''" "data ask_snapshot_msg = ?d # []"
      "d_symbol ?d = Some ''XBTUSD''" "list_all complete (data ask_snapshot_msg)"
      "l2_book s_snapshot ''XBTUSD'' = Some ((\<lambda>_. Map.empty)(BID := [100 \<mapsto> 5]))"
      "order_id s_snapshot ''XBTUSD'' = Some ((\<lambda>_. Map.empty)(BID := [1 \<mapsto> 100]))"
    by (simp_all add: ask_snapshot_msg_def order_def complete_def s_snapshot_def)
  have l: "levels s (data ask_snapshot_msg) = (if s = ASK then [(101, 2)] else [])"
      "ids s (data ask_snapshot_msg) = (if s = ASK then [(3, 101)] else [])" for s
    by (simp_all add: levels_def ids_def level_of_def id_of_def ask_snapshot_msg_def order_def
        side_of_def List.map_filter_simps)
  from snapshot_overlays[OF a, of 2] show ?thesis
    by (simp add: l s_snapshot_def fun_eq_iff)
qed

text \<open>
  The claim as stated fails at the same input. The second snapshot has no bid, yet the
  bid at 100 of the first snapshot is still in the book afterwards, and the update is
  delivered with \<^verbatim>\<open>forced = False\<close>.
\<close>

theorem second_snapshot_counterexample:
  "fst (Bitmex_book (Bitmex_reset feed0) snapshot_msg 1) = s_snapshot \<and>
   action ask_snapshot_msg = ''partial'' \<and>
   forced_of (snd (Bitmex_book s_snapshot ask_snapshot_msg 2)) = Some False \<and>
   levels BID (data ask_snapshot_msg) = [] \<and>
   level_at (fst (Bitmex_book s_snapshot ask_snapshot_msg 2)) ''XBTUSD'' BID 100 = Some 5"
proof -
  have "fst (Bitmex_book (Bitmex_reset feed0) snapshot_msg 1) = s_snapshot"
    by (simp add: run_snapshot s_reset_def[symmetric])
  moreover have "action ask_snapshot_msg = ''partial'' \<and>
   forced_of (snd (Bitmex_book s_snapshot ask_snapshot_msg 2)) = Some False \<and>
   levels BID (data ask_snapshot_msg) = [] \<and>
   level_at (fst (Bitmex_book s_snapshot ask_snapshot_msg 2)) ''XBTUSD'' BID 100 = Some 5"
    by (simp add: ask_snapshot_msg_def s_snapshot_def handler_defs forced_of_def level_at_def
        levels_def level_of_def List.map_filter_simps)
  ultimately show ?thesis by blast
qed

text \<open>
  Claim C3, as the code has it. After a reset and any sequence of book messages, whether
  each is applied, discarded or ends in an exception, every identifier in the index of
  a symbol and side maps to a price with a live level in the book of that symbol and
  side, provided that whenever a \<^verbatim>\<open>delete\<close> message is handled no two identifiers of
  its symbol and one side are indexed at the same price. Snapshots, inserts and updates
  keep the property without any condition.
\<close>

theorem index_consistent:
  assumes "deletes_ready (Bitmex_reset st) ms"
  shows "consistent (run (Bitmex_reset st) ms)"
  using assms by (rule consistent_run[OF consistent_reset])

text \<open>
  The scenario of the specification, and a run in which identifier 2 is inserted at the
  price 100 after identifier 1, which had that price, was deleted.
\<close>

theorem index_consistent_witness:
  "deletes_ready (Bitmex_reset feed0)
     [(snapshot_msg, 1), (insert_msg, 2), (update_msg, 3), (delete_msg, 4)] \<and>
   consistent (run (Bitmex_reset feed0)
     [(snapshot_msg, 1), (insert_msg, 2), (update_msg, 3), (delete_msg, 4)]) \<and>
   deletes_ready (Bitmex_reset feed0) [(snapshot_msg, 1), (delete_msg, 2), (reinsert_msg, 3)] \<and>
   consistent (run (Bitmex_reset feed0) [(snapshot_msg, 1), (delete_msg, 2), (reinsert_msg, 3)])"
proof -
  have u: "one_id_per_price s_update ''XBTUSD''"
    by (auto simp: one_id_per_price_def index_at_def s_update_def split: if_splits)
  have v: "one_id_per_price s_snapshot ''XBTUSD''"
    by (auto simp: one_id_per_price_def index_at_def s_snapshot_def split: if_splits)
  have n: "delete_ready st snapshot_msg" "delete_ready st insert_msg" "delete_ready st update_msg"
      "delete_ready st reinsert_msg" for st
    by (simp_all add: delete_ready_def snapshot_msg_def insert_msg_def update_msg_def
        reinsert_msg_def order_def)
  have d: "delete_ready s_update delete_msg" "delete_ready s_snapshot delete_msg"
    using u v by (simp_all add: delete_ready_def delete_msg_def order_def)
  have a: "deletes_ready (Bitmex_reset feed0)
     [(snapshot_msg, 1), (insert_msg, 2), (update_msg, 3), (delete_msg, 4)]"
    using n d by (simp add: s_reset_def[symmetric] run_snapshot run_insert run_update)
  have b: "deletes_ready (Bitmex_reset feed0)
     [(snapshot_msg, 1), (delete_msg, 2), (reinsert_msg, 3)]"
    using n d by (simp add: s_reset_def[symmetric] run_snapshot)
  from index_consistent[OF a] index_consistent[OF b] a b show ?thesis by blast
qed

text \<open>
  Without the condition on the stream the claim fails. A snapshot puts two identifiers
  at the price 100; deleting the first removes the level, and the second identifier is
  left in the index with no level at its price. Both messages are processed
  successfully: each delivers its book update.
\<close>

theorem twin_delete_counterexample:
  "run (Bitmex_reset feed0) [(twin_snapshot_msg, 1), (delete_msg, 2)] = stale \<and>
   event_time (snd (Bitmex_book (Bitmex_reset feed0) twin_snapshot_msg 1)) = Some 1 \<and>
   event_time (snd (Bitmex_book twin delete_msg 2)) = Some 2 \<and>
   index_at stale ''XBTUSD'' BID 2 = Some 100 \<and>
   level_at stale ''XBTUSD'' BID 100 = None \<and>
   \<not> consistent stale"
proof -
  have a: "index_at stale ''XBTUSD'' BID 2 = Some 100" "level_at stale ''XBTUSD'' BID 100 = None"
    by (simp_all add: stale_def index_at_def level_at_def)
  then have "\<not> consistent stale" unfolding consistent_def by force
  with a show ?thesis
    by (simp add: run_twin_snapshot run_twin_delete s_reset_def[symmetric] event_time_def)
qed

text \<open>
  Claim C4, as the code has it. When the gate is set and an \<^verbatim>\<open>update\<close> or \<^verbatim>\<open>delete\<close>
  message contains an entry whose identifier is absent from the index of its side, and
  the entries before it are processed without an exception, the handler raises
  \<^verbatim>\<open>KeyError\<close> for that identifier and calls no callback. The state it leaves is the
  state the entries before the failing one produced: they stay applied, the failing
  entry and the entries after it are not applied. When the failing entry is the first,
  the state is unchanged.
\<close>

theorem unknown_id_raises:
  assumes gate: "partial_received st pair"
    and act: "action m = ''update'' \<or> action m = ''delete''"
    and dat: "data m = pre @ d # post"
    and sym: "d_symbol (hd (data m)) = Some pair"
    and pre: "for_each (if action m = ''update'' then update_entry pair else delete_entry pair)
                pre st (\<lambda>_. []) = (st', Inr dl1)"
    and sd: "d_side d = Some sd" and sz: "action m = ''update'' \<longrightarrow> d_size d \<noteq> None"
    and oid: "d_id d = Some i"
    and idx: "order_id st pair = Some idx" and absent: "idx (side_of sd) i = None"
  shows "Bitmex_book st m timestamp = (st', Raised (KeyError (KId i)))"
proof -
  have a0: "id_absent pair (side_of sd) i st"
    using idx absent by (simp add: id_absent_def)
  have ne: "data m \<noteq> []" using dat by simp
  note op = Bitmex_book_open[OF gate sym ne]
  from act show ?thesis
  proof
    assume u: "action m = ''update''"
    then obtain z where z: "d_size d = Some z" using sz by auto
    have "id_absent pair (side_of sd) i (fst (for_each (update_entry pair) pre st (\<lambda>_. [])))"
      by (rule for_each_invariant_on[where Q = "id_absent pair (side_of sd) i"])
         (simp_all add: update_entry_absent a0)
    then have a1: "id_absent pair (side_of sd) i st'" using pre u by simp
    have "for_each (update_entry pair) (data m) st (\<lambda>_. []) = (st', Inl (KeyError (KId i)))"
      using pre u update_entry_unknown[OF a1 sd z oid, of dl1]
      by (simp add: dat for_each_append)
    then show ?thesis using u by (simp add: op book_apply_def deliver_def)
  next
    assume u: "action m = ''delete''"
    have "id_absent pair (side_of sd) i (fst (for_each (delete_entry pair) pre st (\<lambda>_. [])))"
      by (rule for_each_invariant_on[where Q = "id_absent pair (side_of sd) i"])
         (simp_all add: delete_entry_absent a0)
    then have a1: "id_absent pair (side_of sd) i st'" using pre u by simp
    have "for_each (delete_entry pair) (data m) st (\<lambda>_. []) = (st', Inl (KeyError (KId i)))"
      using pre u delete_entry_unknown[OF a1 sd oid, of dl1]
      by (simp add: dat for_each_append)
    then show ?thesis using u by (simp add: op book_apply_def deliver_def)
  qed
qed

text \<open>
  An update of the known identifier 1 followed by the unknown identifier 9, and the same
  message without its first entry.
\<close>

theorem unknown_id_raises_witness:
  "index_at s_snapshot ''XBTUSD'' BID 9 = None \<and>
   Bitmex_book s_snapshot bad_update_msg 2 = (s_bumped, Raised (KeyError (KId 9))) \<and>
   Bitmex_book s_snapshot (bad_update_msg\<lparr>data := tl (data bad_update_msg)\<rparr>) 2
     = (s_snapshot, Raised (KeyError (KId 9)))"
proof -
  let ?a = "order ''XBTUSD'' ''Buy'' None (Some 7) 1"
  let ?b = "order ''XBTUSD'' ''Buy'' None (Some 1) 9"
  let ?idx = "(\<lambda>_. Map.empty)(BID := [(1::int) \<mapsto> (100::rat)])"
  have g: "partial_received s_snapshot ''XBTUSD''" by (simp add: s_snapshot_def)
  have act: "action bad_update_msg = ''update'' \<or> action bad_update_msg = ''delete''"
    by (simp add: bad_update_msg_def)
  have dat: "data bad_update_msg = [?a] @ ?b # []" by (simp add: bad_update_msg_def)
  have sym: "d_symbol (hd (data bad_update_msg)) = Some ''XBTUSD''"
    by (simp add: bad_update_msg_def order_def)
  have pre: "for_each (if action bad_update_msg = ''update'' then update_entry ''XBTUSD''
               else delete_entry ''XBTUSD'') [?a] s_snapshot (\<lambda>_. [])
             = (s_bumped, Inr ((\<lambda>_. [])(BID := [(100, 7)])))"
    by (simp add: bad_update_msg_def s_snapshot_def s_bumped_def update_entry_def order_def side_of_def)
  have sd: "d_side ?b = Some ''Buy''" and oid: "d_id ?b = Some 9"
    and sz: "action bad_update_msg = ''update'' \<longrightarrow> d_size ?b \<noteq> None"
    by (simp_all add: order_def)
  have idx: "order_id s_snapshot ''XBTUSD'' = Some ?idx" by (simp add: s_snapshot_def)
  have ab: "?idx (side_of ''Buy'') 9 = None" by (simp add: side_of_def)
  let ?m = "bad_update_msg\<lparr>data := tl (data bad_update_msg)\<rparr>"
  have act': "action ?m = ''update'' \<or> action ?m = ''delete''"
    by (simp add: bad_update_msg_def)
  have dat': "data ?m = [] @ ?b # []" by (simp add: bad_update_msg_def)
  have sym': "d_symbol (hd (data ?m)) = Some ''XBTUSD''"
    by (simp add: bad_update_msg_def order_def)
  have pre': "for_each (if action ?m = ''update'' then update_entry ''XBTUSD''
               else delete_entry ''XBTUSD'') [] s_snapshot (\<lambda>_. []) = (s_snapshot, Inr (\<lambda>_. []))"
    by simp
  have 1: "Bitmex_book s_snapshot bad_update_msg 2 = (s_bumped, Raised (KeyError (KId 9)))"
    by (rule unknown_id_raises[OF g act dat sym pre sd sz oid idx ab])
  have sz': "action ?m = ''update'' \<longrightarrow> d_size ?b \<noteq> None"
    by (simp add: order_def)
  have 2: "Bitmex_book s_snapshot ?m 2 = (s_snapshot, Raised (KeyError (KId 9)))"
    by (rule unknown_id_raises[OF g act' dat' sym' pre' sd sz' oid idx ab])
  have 3: "index_at s_snapshot ''XBTUSD'' BID 9 = None" by (simp add: index_at_def s_snapshot_def)
  from 1 2 3 show ?thesis by simp
qed

text \<open>
  The claim as stated fails on the first of these messages: the handler raises for
  identifier 9, and the level at 100 has already been changed from 5 to 7.
\<close>

theorem partial_application_counterexample:
  "fst (Bitmex_book (Bitmex_reset feed0) snapshot_msg 1) = s_snapshot \<and>
   partial_received s_snapshot ''XBTUSD'' \<and> action bad_update_msg = ''update'' \<and>
   index_at s_snapshot ''XBTUSD'' BID 9 = None \<and>
   snd (Bitmex_book s_snapshot bad_update_msg 2) = Raised (KeyError (KId 9)) \<and>
   level_at s_snapshot ''XBTUSD'' BID 100 = Some 5 \<and>
   level_at (fst (Bitmex_book s_snapshot bad_update_msg 2)) ''XBTUSD'' BID 100 = Some 7"
proof -
  have "fst (Bitmex_book (Bitmex_reset feed0) snapshot_msg 1) = s_snapshot"
    by (simp add: run_snapshot s_reset_def[symmetric])
  moreover have "partial_received s_snapshot ''XBTUSD'' \<and> action bad_update_msg = ''update'' \<and>
   index_at s_snapshot ''XBTUSD'' BID 9 = None \<and>
   snd (Bitmex_book s_snapshot bad_update_msg 2) = Raised (KeyError (KId 9)) \<and>
   level_at s_snapshot ''XBTUSD'' BID 100 = Some 5 \<and>
   level_at (fst (Bitmex_book s_snapshot bad_update_msg 2)) ''XBTUSD'' BID 100 = Some 7"
    by (simp add: bad_update_msg_def s_snapshot_def handler_defs index_at_def level_at_def)
  ultimately show ?thesis by blast
qed

text \<open>
  Claim C5, as the code has it. Let the gate be set and let an entry of a \<^verbatim>\<open>delete\<close>
  message name an identifier that the index maps to the price \<open>p\<close>. If the entry is the
  only one of the message and \<open>p\<close> has a level in the book, the handler removes the
  identifier from the index and the level from the book, changes nothing else, and
  delivers an update whose delta is \<open>[(p, 0)]\<close> on that side and empty on the other.
  For a message of any length: whenever the handler delivers an update, the identifier
  is gone from the index, the level at \<open>p\<close> is gone from the book, and \<open>(p, 0)\<close> occurs
  exactly once in the delta of that side.
\<close>

theorem delete_removes_level:
  assumes gate: "partial_received st pair" and act: "action m = ''delete''"
    and sym: "d_symbol (hd (data m)) = Some pair" and mem: "d \<in> set (data m)"
    and sd: "d_side d = Some sd" and oid: "d_id d = Some i"
    and idx: "order_id st pair = Some idx" and p: "idx (side_of sd) i = Some p"
    and bk: "l2_book st pair = Some bk"
  shows "(data m = [d] \<and> bk (side_of sd) p \<noteq> None \<longrightarrow>
           Bitmex_book st m timestamp =
             (st\<lparr>order_id := (order_id st)(pair \<mapsto> idx(side_of sd := (idx (side_of sd))(i := None))),
                 l2_book := (l2_book st)(pair \<mapsto> bk(side_of sd := (bk (side_of sd))(p := None)))\<rparr>,
              Returned (Some \<lparr>bu_book = bk(side_of sd := (bk (side_of sd))(p := None)),
                              bu_book_type = L2_BOOK, bu_pair = pair, bu_forced = False,
                              bu_delta = (\<lambda>_. [])(side_of sd := [(p, 0)]),
                              bu_timestamp = timestamp, bu_receipt_timestamp = timestamp\<rparr>))) \<and>
         (\<forall>st' bu. Bitmex_book st m timestamp = (st', Returned (Some bu)) \<longrightarrow>
            index_at st' pair (side_of sd) i = None \<and>
            level_at st' pair (side_of sd) p = None \<and>
            count_list (bu_delta bu (side_of sd)) (p, 0) = 1)"
proof -
  have ne: "data m \<noteq> []" using mem by auto
  have op: "Bitmex_book st m timestamp =
      deliver pair False timestamp (for_each (delete_entry pair) (data m) st (\<lambda>_. []))"
    using act by (simp add: Bitmex_book_open[OF gate sym ne] book_apply_def)
  have one: "data m = [d] \<and> bk (side_of sd) p \<noteq> None \<longrightarrow>
           Bitmex_book st m timestamp =
             (st\<lparr>order_id := (order_id st)(pair \<mapsto> idx(side_of sd := (idx (side_of sd))(i := None))),
                 l2_book := (l2_book st)(pair \<mapsto> bk(side_of sd := (bk (side_of sd))(p := None)))\<rparr>,
              Returned (Some \<lparr>bu_book = bk(side_of sd := (bk (side_of sd))(p := None)),
                              bu_book_type = L2_BOOK, bu_pair = pair, bu_forced = False,
                              bu_delta = (\<lambda>_. [])(side_of sd := [(p, 0)]),
                              bu_timestamp = timestamp, bu_receipt_timestamp = timestamp\<rparr>))"
  proof
    assume a: "data m = [d] \<and> bk (side_of sd) p \<noteq> None"
    then obtain z where z: "bk (side_of sd) p = Some z" by auto
    show "Bitmex_book st m timestamp =
             (st\<lparr>order_id := (order_id st)(pair \<mapsto> idx(side_of sd := (idx (side_of sd))(i := None))),
                 l2_book := (l2_book st)(pair \<mapsto> bk(side_of sd := (bk (side_of sd))(p := None)))\<rparr>,
              Returned (Some \<lparr>bu_book = bk(side_of sd := (bk (side_of sd))(p := None)),
                              bu_book_type = L2_BOOK, bu_pair = pair, bu_forced = False,
                              bu_delta = (\<lambda>_. [])(side_of sd := [(p, 0)]),
                              bu_timestamp = timestamp, bu_receipt_timestamp = timestamp\<rparr>))"
      using a by (simp add: op delete_entry_ok[OF sd oid idx p bk z] deliver_def)
  qed
  have all: "\<forall>st' bu. Bitmex_book st m timestamp = (st', Returned (Some bu)) \<longrightarrow>
            index_at st' pair (side_of sd) i = None \<and>
            level_at st' pair (side_of sd) p = None \<and>
            count_list (bu_delta bu (side_of sd)) (p, 0) = 1"
  proof (intro allI impI)
    fix st' bu
    assume r: "Bitmex_book st m timestamp = (st', Returned (Some bu))"
    then have l: "for_each (delete_entry pair) (data m) st (\<lambda>_. []) = (st', Inr (bu_delta bu))"
      unfolding op
      by (auto simp: deliver_def split: prod.splits sum.splits option.splits)
    from delete_loop_effect[OF l idx bk]
    obtain idx' bk' where e: "order_id st' pair = Some idx'" "l2_book st' pair = Some bk'"
      "\<forall>d\<in>set (data m). \<exists>sd i p. d_side d = Some sd \<and> d_id d = Some i \<and>
          idx (side_of sd) i = Some p \<and> bk (side_of sd) p \<noteq> None \<and>
          idx' (side_of sd) i = None \<and> bk' (side_of sd) p = None \<and>
          count_list (bu_delta bu (side_of sd)) (p, 0) = Suc (count_list ([]::(rat \<times> rat) list) (p, 0))"
      by blast
    from e(3) mem sd oid p
    have "idx' (side_of sd) i = None \<and> bk' (side_of sd) p = None \<and>
          count_list (bu_delta bu (side_of sd)) (p, 0) = Suc 0"
      by fastforce
    then show "index_at st' pair (side_of sd) i = None \<and>
            level_at st' pair (side_of sd) p = None \<and>
            count_list (bu_delta bu (side_of sd)) (p, 0) = 1"
      using e(1,2) by (simp add: index_at_def level_at_def)
  qed
  from one all show ?thesis by blast
qed

text \<open>
  The delete of the scenario: identifier 1 at 100 goes, the level at 99 stays.
\<close>

theorem delete_removes_level_witness:
  "level_at s_update ''XBTUSD'' BID 100 = Some 5 \<and>
   index_at s_update ''XBTUSD'' BID 1 = Some 100 \<and>
   index_at (fst (Bitmex_book s_update delete_msg 4)) ''XBTUSD'' BID 1 = None \<and>
   level_at (fst (Bitmex_book s_update delete_msg 4)) ''XBTUSD'' BID 100 = None \<and>
   level_at (fst (Bitmex_book s_update delete_msg 4)) ''XBTUSD'' BID 99 = Some 7 \<and>
   delta_of (snd (Bitmex_book s_update delete_msg 4)) BID = Some [(100, 0)]"
proof -
  let ?d = "order ''XBTUSD'' ''Buy'' None None 1"
  let ?idx = "(\<lambda>_. Map.empty)(BID := [(1::int) \<mapsto> (100::rat), 2 \<mapsto> 99])"
  let ?bk = "(\<lambda>_. Map.empty)(BID := [(100::rat) \<mapsto> (5::rat), 99 \<mapsto> 7])"
  have h: "partial_received s_update ''XBTUSD''" "action delete_msg = ''delete''"
      "d_symbol (hd (data delete_msg)) = Some ''XBTUSD''" "?d \<in> set (data delete_msg)"
      "d_side ?d = Some ''Buy''" "d_id ?d = Some 1"
      "order_id s_update ''XBTUSD'' = Some ?idx" "?idx (side_of ''Buy'') 1 = Some 100"
      "l2_book s_update ''XBTUSD'' = Some ?bk"
    by (simp_all add: s_update_def delete_msg_def order_def side_of_def)
  have s: "data delete_msg = [?d] \<and> ?bk (side_of ''Buy'') 100 \<noteq> None"
    by (simp add: delete_msg_def side_of_def)
  from delete_removes_level[OF h, of 4] s
  have "Bitmex_book s_update delete_msg 4 =
     (s_update\<lparr>order_id := (order_id s_update)(''XBTUSD'' \<mapsto>
                    ?idx(side_of ''Buy'' := (?idx (side_of ''Buy''))(1 := None))),
               l2_book := (l2_book s_update)(''XBTUSD'' \<mapsto>
                    ?bk(side_of ''Buy'' := (?bk (side_of ''Buy''))(100 := None)))\<rparr>,
      Returned (Some \<lparr>bu_book = ?bk(side_of ''Buy'' := (?bk (side_of ''Buy''))(100 := None)),
                      bu_book_type = L2_BOOK, bu_pair = ''XBTUSD'', bu_forced = False,
                      bu_delta = (\<lambda>_. [])(side_of ''Buy'' := [(100, 0)]),
                      bu_timestamp = 4, bu_receipt_timestamp = 4\<rparr>))"
    by blast
  then show ?thesis
    by (simp add: s_update_def index_at_def level_at_def delta_of_def side_of_def)
qed

text \<open>
  The claim as stated fails when the price has no level. After the snapshot with two
  identifiers at 100 and the delete of the first, identifier 2 is in the index at 100;
  deleting it raises \<^verbatim>\<open>KeyError\<close> for the price and no delta is delivered.
\<close>

theorem stale_delete_counterexample:
  "run (Bitmex_reset feed0) [(twin_snapshot_msg, 1), (delete_msg, 2)] = stale \<and>
   partial_received stale ''XBTUSD'' \<and> action delete2_msg = ''delete'' \<and>
   index_at stale ''XBTUSD'' BID 2 = Some 100 \<and>
   snd (Bitmex_book stale delete2_msg 3) = Raised (KeyError (KPrice 100)) \<and>
   delta_of (snd (Bitmex_book stale delete2_msg 3)) BID = None"
proof -
  have a: "run (Bitmex_reset feed0) [(twin_snapshot_msg, 1), (delete_msg, 2)] = stale"
    by (simp add: run_twin_snapshot run_twin_delete s_reset_def[symmetric])
  have b: "snd (Bitmex_book stale delete2_msg 3) = Raised (KeyError (KPrice 100))"
    by (simp add: stale_def delete2_msg_def handler_defs)
  have c: "partial_received stale ''XBTUSD''" "action delete2_msg = ''delete''"
      "index_at stale ''XBTUSD'' BID 2 = Some 100"
    by (simp_all add: stale_def delete2_msg_def index_at_def)
  from a b c show ?thesis by (simp add: delta_of_def)
qed

text \<open>
  Claim C6, as the code has it. Let the gate be set and let the symbol be configured. An
  \<^verbatim>\<open>update\<close> message delivers a book update exactly when every entry carries side, size
  and an identifier that the index of its side knows. Then the index is unchanged, so
  every identifier keeps its price; each side of the book is the side before overridden
  by the (price, size) pairs that the entries of that side resolve to, in message order,
  so a level that no entry resolves to is unchanged and a level that several entries
  resolve to holds the size of the last of them; the gate and all other symbols are
  unchanged; the update is not forced, and the delta of a side is the list of these
  pairs in message order. For a message of one entry that resolves to the price \<open>p\<close>,
  only the level at \<open>p\<close> changes and the delta is \<open>[(p, size)]\<close> on that side and empty
  on the other.
\<close>

theorem update_sets_sizes:
  assumes gate: "partial_received st pair" and act: "action m = ''update''"
    and dat: "data m = d0 # ds" and sym: "d_symbol d0 = Some pair"
    and idx: "order_id st pair = Some idx" and bk: "l2_book st pair = Some bk"
  shows "(list_all (known idx) (data m) \<longrightarrow>
     Bitmex_book st m timestamp =
       (st\<lparr>l2_book := (l2_book st)(pair \<mapsto> (\<lambda>s. bk s ++ map_of (rev (resolved idx s (data m)))))\<rparr>,
        Returned (Some \<lparr>bu_book = (\<lambda>s. bk s ++ map_of (rev (resolved idx s (data m)))),
                        bu_book_type = L2_BOOK, bu_pair = pair, bu_forced = False,
                        bu_delta = (\<lambda>s. resolved idx s (data m)),
                        bu_timestamp = timestamp, bu_receipt_timestamp = timestamp\<rparr>))) \<and>
    (\<forall>sd z i p. ds = [] \<and> d_side d0 = Some sd \<and> d_size d0 = Some z \<and> d_id d0 = Some i \<and>
        idx (side_of sd) i = Some p \<longrightarrow>
     Bitmex_book st m timestamp =
       (st\<lparr>l2_book := (l2_book st)(pair \<mapsto> bk(side_of sd := (bk (side_of sd))(p \<mapsto> z)))\<rparr>,
        Returned (Some \<lparr>bu_book = bk(side_of sd := (bk (side_of sd))(p \<mapsto> z)),
                        bu_book_type = L2_BOOK, bu_pair = pair, bu_forced = False,
                        bu_delta = (\<lambda>_. [])(side_of sd := [(p, z)]),
                        bu_timestamp = timestamp, bu_receipt_timestamp = timestamp\<rparr>))) \<and>
    (\<forall>st' bu. Bitmex_book st m timestamp = (st', Returned (Some bu)) \<longrightarrow>
        list_all (known idx) (data m))"
proof -
  have op: "Bitmex_book st m timestamp =
      deliver pair False timestamp (for_each (update_entry pair) (data m) st (\<lambda>_. []))"
    using gate act dat sym by (simp add: Bitmex_book_def book_apply_def)
  have 1: "list_all (known idx) (data m) \<longrightarrow>
     Bitmex_book st m timestamp =
       (st\<lparr>l2_book := (l2_book st)(pair \<mapsto> (\<lambda>s. bk s ++ map_of (rev (resolved idx s (data m)))))\<rparr>,
        Returned (Some \<lparr>bu_book = (\<lambda>s. bk s ++ map_of (rev (resolved idx s (data m)))),
                        bu_book_type = L2_BOOK, bu_pair = pair, bu_forced = False,
                        bu_delta = (\<lambda>s. resolved idx s (data m)),
                        bu_timestamp = timestamp, bu_receipt_timestamp = timestamp\<rparr>))"
  proof
    assume k: "list_all (known idx) (data m)"
    show "Bitmex_book st m timestamp =
       (st\<lparr>l2_book := (l2_book st)(pair \<mapsto> (\<lambda>s. bk s ++ map_of (rev (resolved idx s (data m)))))\<rparr>,
        Returned (Some \<lparr>bu_book = (\<lambda>s. bk s ++ map_of (rev (resolved idx s (data m)))),
                        bu_book_type = L2_BOOK, bu_pair = pair, bu_forced = False,
                        bu_delta = (\<lambda>s. resolved idx s (data m)),
                        bu_timestamp = timestamp, bu_receipt_timestamp = timestamp\<rparr>))"
      by (simp add: op update_loop[OF k bk idx] deliver_def)
  qed
  have 2: "\<forall>sd z i p. ds = [] \<and> d_side d0 = Some sd \<and> d_size d0 = Some z \<and> d_id d0 = Some i \<and>
        idx (side_of sd) i = Some p \<longrightarrow>
     Bitmex_book st m timestamp =
       (st\<lparr>l2_book := (l2_book st)(pair \<mapsto> bk(side_of sd := (bk (side_of sd))(p \<mapsto> z)))\<rparr>,
        Returned (Some \<lparr>bu_book = bk(side_of sd := (bk (side_of sd))(p \<mapsto> z)),
                        bu_book_type = L2_BOOK, bu_pair = pair, bu_forced = False,
                        bu_delta = (\<lambda>_. [])(side_of sd := [(p, z)]),
                        bu_timestamp = timestamp, bu_receipt_timestamp = timestamp\<rparr>))"
  proof (intro allI impI)
    fix sd z i p
    assume h: "ds = [] \<and> d_side d0 = Some sd \<and> d_size d0 = Some z \<and> d_id d0 = Some i \<and>
        idx (side_of sd) i = Some p"
    have i1: "(idx (side_of sd))(i \<mapsto> p) = idx (side_of sd)"
      using h by (simp add: map_upd_triv)
    have i2: "(order_id st)(pair \<mapsto> idx) = order_id st"
      using idx by (simp add: map_upd_triv)
    show "Bitmex_book st m timestamp =
       (st\<lparr>l2_book := (l2_book st)(pair \<mapsto> bk(side_of sd := (bk (side_of sd))(p \<mapsto> z)))\<rparr>,
        Returned (Some \<lparr>bu_book = bk(side_of sd := (bk (side_of sd))(p \<mapsto> z)),
                        bu_book_type = L2_BOOK, bu_pair = pair, bu_forced = False,
                        bu_delta = (\<lambda>_. [])(side_of sd := [(p, z)]),
                        bu_timestamp = timestamp, bu_receipt_timestamp = timestamp\<rparr>))"
      using h dat idx bk by (simp add: op update_entry_def deliver_def i1 i2)
  qed
  have 3: "\<forall>st' bu. Bitmex_book st m timestamp = (st', Returned (Some bu)) \<longrightarrow>
        list_all (known idx) (data m)"
  proof (intro allI impI)
    fix st' bu
    assume "Bitmex_book st m timestamp = (st', Returned (Some bu))"
    then have "for_each (update_entry pair) (data m) st (\<lambda>_. []) = (st', Inr (bu_delta bu))"
      unfolding op by (simp add: deliver_Returned)
    then show "list_all (known idx) (data m)" using idx by (rule update_loop_Inr)
  qed
  from 1 2 3 show ?thesis by blast
qed

text \<open>
  An update of both identifiers in one message, and the one-entry update of the scenario.
\<close>

theorem update_sets_sizes_witness:
  "list_all (known ((\<lambda>_. Map.empty)(BID := [1 \<mapsto> 100, 2 \<mapsto> 99]))) (data batch_update_msg) \<and>
   Bitmex_book s_insert batch_update_msg 3 =
     (s_batch,
      Returned (Some \<lparr>bu_book = (\<lambda>_. Map.empty)(BID := [100 \<mapsto> 8, 99 \<mapsto> 9]),
                      bu_book_type = L2_BOOK, bu_pair = ''XBTUSD'', bu_forced = False,
                      bu_delta = (\<lambda>_. [])(BID := [(100, 8), (99, 9)]),
                      bu_timestamp = 3, bu_receipt_timestamp = 3\<rparr>)) \<and>
   Bitmex_book s_insert update_msg 3 =
     (s_update,
      Returned (Some \<lparr>bu_book = (\<lambda>_. Map.empty)(BID := [100 \<mapsto> 5, 99 \<mapsto> 7]),
                      bu_book_type = L2_BOOK, bu_pair = ''XBTUSD'', bu_forced = False,
                      bu_delta = (\<lambda>_. [])(BID := [(99, 7)]),
                      bu_timestamp = 3, bu_receipt_timestamp = 3\<rparr>))"
proof -
  let ?idx = "(\<lambda>_. Map.empty)(BID := [(1::int) \<mapsto> (100::rat), 2 \<mapsto> 99])"
  let ?bk = "(\<lambda>_. Map.empty)(BID := [(100::rat) \<mapsto> (5::rat), 99 \<mapsto> 3])"
  let ?a = "order ''XBTUSD'' ''Buy'' None (Some 8) 1"
  let ?b = "order ''XBTUSD'' ''Buy'' None (Some 9) 2"
  let ?c = "order ''XBTUSD'' ''Buy'' None (Some 7) 2"
  have h: "partial_received s_insert ''XBTUSD''" "action batch_update_msg = ''update''"
      "data batch_update_msg = ?a # [?b]" "d_symbol ?a = Some ''XBTUSD''"
      "order_id s_insert ''XBTUSD'' = Some ?idx" "l2_book s_insert ''XBTUSD'' = Some ?bk"
    by (simp_all add: s_insert_def batch_update_msg_def order_def)
  have k: "list_all (known ?idx) (data batch_update_msg)"
    by (simp add: known_def batch_update_msg_def order_def side_of_def)
  have h1: "partial_received s_insert ''XBTUSD''" "action update_msg = ''update''"
      "data update_msg = ?c # []" "d_symbol ?c = Some ''XBTUSD''"
      "order_id s_insert ''XBTUSD'' = Some ?idx" "l2_book s_insert ''XBTUSD'' = Some ?bk"
    by (simp_all add: s_insert_def update_msg_def order_def)
  have f: "d_side ?c = Some ''Buy''" "d_size ?c = Some 7" "d_id ?c = Some 2"
      "?idx (side_of ''Buy'') 2 = Some 99"
    by (simp_all add: order_def side_of_def)
  from update_sets_sizes[OF h, of 3] k
  have 1: "Bitmex_book s_insert batch_update_msg 3 =
       (s_insert\<lparr>l2_book := (l2_book s_insert)(''XBTUSD'' \<mapsto>
            (\<lambda>s. ?bk s ++ map_of (rev (resolved ?idx s (data batch_update_msg)))))\<rparr>,
        Returned (Some \<lparr>bu_book = (\<lambda>s. ?bk s ++ map_of (rev (resolved ?idx s (data batch_update_msg)))),
                        bu_book_type = L2_BOOK, bu_pair = ''XBTUSD'', bu_forced = False,
                        bu_delta = (\<lambda>s. resolved ?idx s (data batch_update_msg)),
                        bu_timestamp = 3, bu_receipt_timestamp = 3\<rparr>))"
    by blast
  from update_sets_sizes[OF h1, of 3] f
  have 2: "Bitmex_book s_insert update_msg 3 =
       (s_insert\<lparr>l2_book := (l2_book s_insert)(''XBTUSD'' \<mapsto>
            ?bk(side_of ''Buy'' := (?bk (side_of ''Buy''))(99 \<mapsto> 7)))\<rparr>,
        Returned (Some \<lparr>bu_book = ?bk(side_of ''Buy'' := (?bk (side_of ''Buy''))(99 \<mapsto> 7)),
                        bu_book_type = L2_BOOK, bu_pair = ''XBTUSD'', bu_forced = False,
                        bu_delta = (\<lambda>_. [])(side_of ''Buy'' := [(99, 7)]),
                        bu_timestamp = 3, bu_receipt_timestamp = 3\<rparr>))"
    by blast
  have 1: "Bitmex_book s_insert batch_update_msg 3 =
     (s_batch,
      Returned (Some \<lparr>bu_book = (\<lambda>_. Map.empty)(BID := [100 \<mapsto> 8, 99 \<mapsto> 9]),
                      bu_book_type = L2_BOOK, bu_pair = ''XBTUSD'', bu_forced = False,
                      bu_delta = (\<lambda>_. [])(BID := [(100, 8), (99, 9)]),
                      bu_timestamp = 3, bu_receipt_timestamp = 3\<rparr>))"
    unfolding 1 by (simp add: batch_resolved s_insert_def s_batch_def fun_eq_iff)
  have 2: "Bitmex_book s_insert update_msg 3 =
     (s_update,
      Returned (Some \<lparr>bu_book = (\<lambda>_. Map.empty)(BID := [100 \<mapsto> 5, 99 \<mapsto> 7]),
                      bu_book_type = L2_BOOK, bu_pair = ''XBTUSD'', bu_forced = False,
                      bu_delta = (\<lambda>_. [])(BID := [(99, 7)]),
                      bu_timestamp = 3, bu_receipt_timestamp = 3\<rparr>))"
    unfolding 2 by (simp add: s_insert_def s_update_def side_of_def)
  from k 1 2 show ?thesis by blast
qed

text \<open>
  The claim as stated fails for a message of two entries. For the update of identifier 2,
  indexed at 99, to size 9, sent after an update of identifier 1 in the same message, the
  delta is \<open>[(100, 8), (99, 9)]\<close>, not \<open>[(99, 9)]\<close>, and the level at 100, another
  price, has changed from 5 to 8.
\<close>

theorem batch_update_counterexample:
  "fst (Bitmex_book s_snapshot insert_msg 2) = s_insert \<and>
   partial_received s_insert ''XBTUSD'' \<and> action batch_update_msg = ''update'' \<and>
   data batch_update_msg =
     [order ''XBTUSD'' ''Buy'' None (Some 8) 1, order ''XBTUSD'' ''Buy'' None (Some 9) 2] \<and>
   index_at s_insert ''XBTUSD'' BID 2 = Some 99 \<and>
   delta_of (snd (Bitmex_book s_insert batch_update_msg 3)) BID = Some [(100, 8), (99, 9)] \<and>
   level_at s_insert ''XBTUSD'' BID 100 = Some 5 \<and>
   level_at (fst (Bitmex_book s_insert batch_update_msg 3)) ''XBTUSD'' BID 100 = Some 8"
proof -
  have "fst (Bitmex_book s_snapshot insert_msg 2) = s_insert"
    by (simp add: run_insert)
  moreover have "partial_received s_insert ''XBTUSD'' \<and> action batch_update_msg = ''update'' \<and>
   data batch_update_msg =
     [order ''XBTUSD'' ''Buy'' None (Some 8) 1, order ''XBTUSD'' ''Buy'' None (Some 9) 2] \<and>
   index_at s_insert ''XBTUSD'' BID 2 = Some 99 \<and>
   level_at s_insert ''XBTUSD'' BID 100 = Some 5"
    by (simp add: s_insert_def batch_update_msg_def index_at_def level_at_def)
  moreover have "delta_of (snd (Bitmex_book s_insert batch_update_msg 3)) BID
      = Some [(100, 8), (99, 9)] \<and>
   level_at (fst (Bitmex_book s_insert batch_update_msg 3)) ''XBTUSD'' BID 100 = Some 8"
    by (simp add: s_insert_def batch_update_msg_def handler_defs delta_of_def level_at_def)
  ultimately show ?thesis by blast
qed

text \<open>
  Claim C7, as the code has it. The trade, quote and funding handlers deliver one event
  per entry, in message order, up to the entry that raises an exception if one does; the
  instrument handler does so for the entries that have the key \<^verbatim>\<open>openInterest\<close>,
  whatever its value. Each event carries \<^verbatim>\<open>timestamp_normalize\<close> of the \<^verbatim>\<open>timestamp\<close>
  field of its own entry as its event timestamp and the local \<^verbatim>\<open>timestamp\<close> argument as
  its receipt timestamp. A book update carries the local \<^verbatim>\<open>timestamp\<close> argument in both
  fields.
\<close>

theorem event_timestamps:
  "delivered (\<lambda>d. True) (stamped_by timestamp_normalize self_id timestamp)
     (\<lambda>d err. trade_entry self_id timestamp_normalize timestamp d = Inl err)
     (data m) (Bitmex_trade self_id timestamp_normalize m timestamp) \<and>
   delivered (\<lambda>d. True) (stamped_by timestamp_normalize self_id timestamp)
     (\<lambda>d err. ticker_entry self_id timestamp_normalize timestamp d = Inl err)
     (data m) (Bitmex_ticker self_id timestamp_normalize m timestamp) \<and>
   delivered (\<lambda>d. True) (stamped_by timestamp_normalize self_id timestamp)
     (\<lambda>d err. funding_entry self_id timestamp_normalize timestamp d = Inl err)
     (data m) (Bitmex_funding self_id timestamp_normalize m timestamp) \<and>
   delivered (\<lambda>d. d_openInterest d \<noteq> None) (stamped_by timestamp_normalize self_id timestamp)
     (\<lambda>d err. instrument_entry self_id timestamp_normalize timestamp d = Inl err)
     (data m) (Bitmex_instrument self_id timestamp_normalize m timestamp) \<and>
   (\<forall>st' bu. Bitmex_book st m timestamp = (st', Returned (Some bu)) \<longrightarrow>
      bu_timestamp bu = timestamp \<and> bu_receipt_timestamp bu = timestamp)"
proof -
  have 1: "delivered (\<lambda>d. True) (stamped_by timestamp_normalize self_id timestamp)
     (\<lambda>d err. trade_entry self_id timestamp_normalize timestamp d = Inl err)
     (data m) (Bitmex_trade self_id timestamp_normalize m timestamp)"
    unfolding Bitmex_trade_def
    by (rule delivered_emit_each) (simp_all add: trade_entry_sends trade_entry_stamped)
  have 2: "delivered (\<lambda>d. True) (stamped_by timestamp_normalize self_id timestamp)
     (\<lambda>d err. ticker_entry self_id timestamp_normalize timestamp d = Inl err)
     (data m) (Bitmex_ticker self_id timestamp_normalize m timestamp)"
    unfolding Bitmex_ticker_def
    by (rule delivered_emit_each) (simp_all add: ticker_entry_sends ticker_entry_stamped)
  have 3: "delivered (\<lambda>d. True) (stamped_by timestamp_normalize self_id timestamp)
     (\<lambda>d err. funding_entry self_id timestamp_normalize timestamp d = Inl err)
     (data m) (Bitmex_funding self_id timestamp_normalize m timestamp)"
    unfolding Bitmex_funding_def
    by (rule delivered_emit_each) (simp_all add: funding_entry_sends funding_entry_stamped)
  have 4: "delivered (\<lambda>d. d_openInterest d \<noteq> None) (stamped_by timestamp_normalize self_id timestamp)
     (\<lambda>d err. instrument_entry self_id timestamp_normalize timestamp d = Inl err)
     (data m) (Bitmex_instrument self_id timestamp_normalize m timestamp)"
    unfolding Bitmex_instrument_def
    by (rule delivered_emit_each)
       (simp_all add: instrument_entry_sends[symmetric] instrument_entry_stamped)
  have 5: "\<forall>st' bu. Bitmex_book st m timestamp = (st', Returned (Some bu)) \<longrightarrow>
      bu_timestamp bu = timestamp \<and> bu_receipt_timestamp bu = timestamp"
    using book_update_times by blast
  from 1 2 3 4 5 show ?thesis by blast
qed

text \<open>
  Two trades with different venue times, an instrument message whose second entry has no
  \<^verbatim>\<open>openInterest\<close> and whose third has it as \<^verbatim>\<open>null\<close>, and the snapshot of the scenario.
\<close>

theorem event_timestamps_witness:
  "Bitmex_trade ''BITMEX'' stamp aux_msg 7 =
     ([TRADES ''BITMEX'' ''XBTUSD'' BUY 40 8335 ''5f4ecd49'' 24 7,
       TRADES ''BITMEX'' ''XBTUSD'' SELL 40 8335 ''5f4ecd49'' 20 7], None) \<and>
   stamp ''BITMEX'' ''2018-05-19T12:25:26.632Z'' = 24 \<and>
   stamp ''BITMEX'' ''2018-05-19T12:25:27Z'' = 20 \<and>
   delivered (\<lambda>d. True) (stamped_by stamp ''BITMEX'' 7)
     (\<lambda>d err. trade_entry ''BITMEX'' stamp 7 d = Inl err)
     [aux_entry, later_entry]
     ([TRADES ''BITMEX'' ''XBTUSD'' BUY 40 8335 ''5f4ecd49'' 24 7,
       TRADES ''BITMEX'' ''XBTUSD'' SELL 40 8335 ''5f4ecd49'' 20 7], None) \<and>
   Bitmex_instrument ''BITMEX'' stamp instrument_msg 7 =
     ([OPEN_INTEREST ''BITMEX'' ''XBTUSD'' (Some 983043322) 24 7,
       OPEN_INTEREST ''BITMEX'' ''XBTUSD'' None 20 7], None) \<and>
   Bitmex_book s_reset snapshot_msg 7 =
     (s_snapshot, Returned (Some \<lparr>bu_book = (\<lambda>_. Map.empty)(BID := [100 \<mapsto> 5]),
        bu_book_type = L2_BOOK, bu_pair = ''XBTUSD'', bu_forced = True, bu_delta = (\<lambda>_. []),
        bu_timestamp = 7, bu_receipt_timestamp = 7\<rparr>))"
proof -
  have d: "data aux_msg = [aux_entry, later_entry]" by (simp add: aux_msg_def)
  from event_timestamps[of stamp "''BITMEX''" 7 aux_msg s_reset]
  have "delivered (\<lambda>d. True) (stamped_by stamp ''BITMEX'' 7)
     (\<lambda>d err. trade_entry ''BITMEX'' stamp 7 d = Inl err)
     (data aux_msg) (Bitmex_trade ''BITMEX'' stamp aux_msg 7)"
    by blast
  then have "delivered (\<lambda>d. True) (stamped_by stamp ''BITMEX'' 7)
     (\<lambda>d err. trade_entry ''BITMEX'' stamp 7 d = Inl err)
     [aux_entry, later_entry]
     ([TRADES ''BITMEX'' ''XBTUSD'' BUY 40 8335 ''5f4ecd49'' 24 7,
       TRADES ''BITMEX'' ''XBTUSD'' SELL 40 8335 ''5f4ecd49'' 20 7], None)"
    by (simp only: d aux_runs)
  then show ?thesis
    by (simp add: aux_runs run_snapshot stamp_def)
qed

text \<open>
  The claim as stated fails for book updates. The same message, whose entry carries a
  venue timestamp, handled at the local times 1 and 2, yields the event timestamps 1 and
  2: the event timestamp is the receipt timestamp.
\<close>

theorem book_event_time_counterexample:
  "d_timestamp (hd (data snapshot_msg)) = Some ''2020-02-02T00:30:43.772Z'' \<and>
   event_time (snd (Bitmex_book s_reset snapshot_msg 1)) = Some 1 \<and>
   receipt_time (snd (Bitmex_book s_reset snapshot_msg 1)) = Some 1 \<and>
   event_time (snd (Bitmex_book s_reset snapshot_msg 2)) = Some 2 \<and>
   receipt_time (snd (Bitmex_book s_reset snapshot_msg 2)) = Some 2"
proof -
  have "d_timestamp (hd (data snapshot_msg)) = Some ''2020-02-02T00:30:43.772Z''"
    by (simp add: snapshot_msg_def order_def)
  then show ?thesis
    by (simp add: run_snapshot event_time_def receipt_time_def)
qed

text \<open>
  Claim C8. Resetting twice gives the state that resetting once gives. A \<^verbatim>\<open>partial\<close>
  message for a configured symbol, with entries that carry side, price, size and
  identifier, handled right after a reset, sets the gate of the symbol, delivers a forced
  update with an empty delta, and leaves a book whose sides hold the entries of the
  message and nothing else: a price maps to the size of the last entry of its side at
  that price, and with distinct prices the side is exactly the set of the (price, size)
  pairs of the entries.
\<close>

theorem reset_idempotent:
  assumes "action m = ''partial''" and "data m = d0 # ds" and "d_symbol d0 = Some pair"
    and "list_all complete (data m)" and "pair \<in> set (pairs st)"
  shows "Bitmex_reset (Bitmex_reset st) = Bitmex_reset st \<and>
    Bitmex_book (Bitmex_reset st) m timestamp =
     ((Bitmex_reset st)\<lparr>partial_received := (\<lambda>_. False)(pair := True),
         l2_book := (l2_book (Bitmex_reset st))(pair \<mapsto> (\<lambda>s. map_of (rev (levels s (data m))))),
         order_id := (order_id (Bitmex_reset st))(pair \<mapsto> (\<lambda>s. map_of (rev (ids s (data m)))))\<rparr>,
      Returned (Some \<lparr>bu_book = (\<lambda>s. map_of (rev (levels s (data m)))),
                      bu_book_type = L2_BOOK, bu_pair = pair,
                      bu_forced = True, bu_delta = (\<lambda>_. []),
                      bu_timestamp = timestamp, bu_receipt_timestamp = timestamp\<rparr>))
    \<and> (\<forall>s. distinct (map fst (levels s (data m))) \<longrightarrow>
          Map.graph (map_of (rev (levels s (data m)))) = set (levels s (data m)))"
proof -
  have b: "l2_book (Bitmex_reset st) pair = Some (\<lambda>_. Map.empty)"
    and i: "order_id (Bitmex_reset st) pair = Some (\<lambda>_. Map.empty)"
    and g: "partial_received (Bitmex_reset st) = (\<lambda>_. False)"
    using assms(5) by (simp_all add: Bitmex_reset_eq)
  from partial_message[OF assms(1-4) b i, of timestamp] show ?thesis
    by (simp add: g Bitmex_reset_idem graph_map_of_rev)
qed

text \<open>
  The snapshot of the scenario after the first reset of the object.
\<close>

theorem reset_idempotent_witness:
  "Bitmex_reset (Bitmex_reset feed0) = Bitmex_reset feed0 \<and>
   Bitmex_book (Bitmex_reset feed0) snapshot_msg 1 =
     (s_snapshot, Returned (Some \<lparr>bu_book = (\<lambda>_. Map.empty)(BID := [100 \<mapsto> 5]),
                      bu_book_type = L2_BOOK, bu_pair = ''XBTUSD'',
                      bu_forced = True, bu_delta = (\<lambda>_. []),
                      bu_timestamp = 1, bu_receipt_timestamp = 1\<rparr>)) \<and>
   Map.graph (map_of (rev (levels BID (data snapshot_msg)))) = {(100, 5)}"
proof -
  let ?d = "order ''XBTUSD'' ''Buy'' (Some 100) (Some 5) 1"
  have a: "action snapshot_msg = ''partial''" "data snapshot_msg = ?d # []"
      "d_symbol ?d = Some ''XBTUSD''" "list_all complete (data snapshot_msg)"
      "''XBTUSD'' \<in> set (pairs feed0)"
    by (simp_all add: snapshot_msg_def order_def complete_def feed0_def)
  have l: "levels s (data snapshot_msg) = (if s = BID then [(100, 5)] else [])"
      "ids s (data snapshot_msg) = (if s = BID then [(1, 100)] else [])" for s
    by (simp_all add: levels_def ids_def level_of_def id_of_def snapshot_msg_def order_def
        side_of_def List.map_filter_simps)
  have r: "Bitmex_reset feed0 = s_reset" by (simp add: s_reset_def)
  from reset_idempotent[OF a, of 1] show ?thesis
    by (simp add: l r s_reset_eq s_snapshot_def fun_eq_iff)
qed



text \<open>
  Claim C10. A book message whose \<^verbatim>\<open>data\<close> array is empty makes the handler raise
  \<^verbatim>\<open>IndexError\<close> (the read of \<^verbatim>\<open>msg['data'][0]\<close>), with the state untouched and no
  callback, whatever the action and whatever the gate.
\<close>

theorem empty_data_raises:
  "Bitmex_book st (m\<lparr>data := []\<rparr>) timestamp = (st, Raised IndexError)"
  by (simp add: Bitmex_book_def)

end
